theory Spec2Isabelle
  imports Complex_Main "HOL-Library.Multiset"
begin

section \<open>Go integers\<close>

text \<open>
  The server is compiled for a 64-bit platform, where Go's \<open>int\<close> has 64 bits and
  arithmetic wraps around in two's complement (the Go specification, "Integer overflow").
  An \<open>int\<close> of the program is an \<open>int\<close> of HOL between \<open>minInt\<close> and \<open>maxInt\<close>, and
  every arithmetic result is reduced by \<open>wrap\<close>. Go's \<open>/\<close> truncates towards zero and
  panics on a zero divisor; the panic is the value \<open>None\<close>.
\<close>

definition minInt :: int where
  "minInt = - (2 ^ 63)"

definition maxInt :: int where
  "maxInt = 2 ^ 63 - 1"

definition wrap :: "int \<Rightarrow> int" where
  "wrap x = (x + 2 ^ 63) mod 2 ^ 64 - 2 ^ 63"

definition go_add :: "int \<Rightarrow> int \<Rightarrow> int" where
  "go_add a b = wrap (a + b)"

definition go_sub :: "int \<Rightarrow> int \<Rightarrow> int" where
  "go_sub a b = wrap (a - b)"

definition go_mul :: "int \<Rightarrow> int \<Rightarrow> int" where
  "go_mul a b = wrap (a * b)"

definition go_quo :: "int \<Rightarrow> int \<Rightarrow> int option" where
  "go_quo a b = (if b = 0 then None else Some (wrap (sgn a * sgn b * (\<bar>a\<bar> div \<bar>b\<bar>))))"

section \<open>Pagination arithmetic\<close>

text \<open>
  \<open>handleBlog\<close> computes the number of the last page as
  \<^verbatim>\<open>last := (total + perPage - 1) / perPage\<close>
  and \<open>getPostsPage\<close> passes \<^verbatim>\<open>(page-1)*perPage\<close> as the offset of its query. The two
  expressions are named here after what they compute; \<open>perPage\<close> is the local constant 3
  of \<open>handleBlog\<close> and a parameter of \<open>getPostsPage\<close>.
\<close>

definition lastPage :: "int \<Rightarrow> int \<Rightarrow> int option" where
  "lastPage tot perPage = go_quo (go_sub (go_add tot perPage) 1) perPage"

definition offset :: "int \<Rightarrow> int \<Rightarrow> int" where
  "offset page perPage = go_mul (go_sub page 1) perPage"

section \<open>Errors and slices\<close>

text \<open>
  A Go \<open>error\<close> is a value of the type \<open>error\<close>: \<open>sql.ErrNoRows\<close>, an error that the
  database server reports for a statement (\<open>pq.Error\<close>, with its message), an error of the
  driver or the connection, and an error of the file system. A function that returns
  \<open>(v, err)\<close> is modelled with the result type \<open>error + 'a\<close>: \<open>Inl err\<close> when
  \<open>err\<close> is not nil, \<open>Inr v\<close> otherwise. \<open>Error\<close> is the method \<open>err.Error()\<close>.
\<close>

datatype error = ErrNoRows | PqError string | DriverError string | PathError string

fun Error :: "error \<Rightarrow> string" where
  "Error ErrNoRows = ''sql: no rows in result set''"
| "Error (PqError m) = ''pq: '' @ m"
| "Error (DriverError m) = m"
| "Error (PathError m) = m"

text \<open>
  A Go slice is either \<open>nil\<close> or has elements. \<open>saveImages\<close> starts from
  \<^verbatim>\<open>var paths []string\<close>, the nil slice, and \<open>append\<close> makes it non-nil. The difference
  is visible to the database driver: \<open>pq.Array\<close> encodes a nil \<open>[]string\<close> as SQL NULL
  and any other slice as an array (\<open>StringArray.Value\<close> of lib/pq). NULL is \<open>None\<close>.
\<close>

datatype 'a slice = NilSlice | Slice "'a list"

fun elems :: "'a slice \<Rightarrow> 'a list" where
  "elems NilSlice = []"
| "elems (Slice xs) = xs"

fun append_slice :: "'a slice \<Rightarrow> 'a \<Rightarrow> 'a slice" where
  "append_slice NilSlice x = Slice [x]"
| "append_slice (Slice xs) x = Slice (xs @ [x])"

fun pq_Array :: "string slice \<Rightarrow> string list option" where
  "pq_Array NilSlice = None"
| "pq_Array (Slice xs) = Some xs"

section \<open>Strings of the standard library\<close>

text \<open>
  A Go string is a sequence of bytes, one \<open>char\<close> for each byte.
  \<open>FormatInt\<close> is \<open>strconv.FormatInt\<close> in base 10, \<open>Ext\<close> is \<open>filepath.Ext\<close> (the
  suffix from the last dot of the last path element, scanning from the end and stopping at
  a separator) and \<open>Base\<close> is \<open>filepath.Base\<close> (the last element of the path, after
  the trailing separators are removed), all on a Unix system.
\<close>

function decimal :: "nat \<Rightarrow> string" where
  "decimal n = (if n < 10 then [''0123456789'' ! n]
                else decimal (n div 10) @ [''0123456789'' ! (n mod 10)])"
  by pat_completeness auto
termination
  by (relation "measure (\<lambda>n. n)") auto

declare decimal.simps [simp del]

definition FormatInt :: "int \<Rightarrow> string" where
  "FormatInt n = (if n < 0 then CHR ''-'' # decimal (nat (- n)) else decimal (nat n))"

fun ext_scan :: "string \<Rightarrow> string \<Rightarrow> string" where
  "ext_scan [] suffix = []"
| "ext_scan (c # front) suffix =
     (if c = CHR ''/'' then []
      else if c = CHR ''.'' then c # suffix
      else ext_scan front (c # suffix))"

definition Ext :: "string \<Rightarrow> string" where
  "Ext path = ext_scan (rev path) []"

definition Base :: "string \<Rightarrow> string" where
  "Base path =
     (if path = [] then ''.''
      else let stripped = rev (dropWhile (\<lambda>c. c = CHR ''/'') (rev path));
               element = rev (takeWhile (\<lambda>c. c \<noteq> CHR ''/'') (rev stripped))
           in if element = [] then ''/'' else element)"

section \<open>Text and identifiers of the database\<close>

text \<open>
  The database has the encoding UTF8, and the driver sends every string as text. The
  server accepts a text when it is well-formed UTF-8 without the byte 0.
  \<open>utf8_first\<close> takes the first character off a byte sequence, after the table of
  well-formed sequences: one byte below \<open>0x80\<close>; a lead byte \<open>0xC2..0xDF\<close> and one
  continuation byte; a lead byte \<open>0xE0..0xEF\<close> and two; a lead byte \<open>0xF0..0xF4\<close> and
  three; with the narrower range of the second byte after \<open>0xE0\<close>, \<open>0xED\<close>, \<open>0xF0\<close> and
  \<open>0xF4\<close>. \<open>utf8_chars\<close> is the sequence of the characters of a text, and \<open>None\<close> for
  bytes that are not one. The server counts the length of a text in characters;
  \<open>characters\<close> counts the bytes that start one.
\<close>

definition continuation :: "char \<Rightarrow> bool" where
  "continuation c = (0x80 \<le> (of_char c :: nat) \<and> (of_char c :: nat) \<le> 0xBF)"

definition second_byte :: "nat \<Rightarrow> char \<Rightarrow> bool" where
  "second_byte lead c =
     (let x = (of_char c :: nat)
      in if lead = 0xE0 then 0xA0 \<le> x \<and> x \<le> 0xBF
         else if lead = 0xED then 0x80 \<le> x \<and> x \<le> 0x9F
         else if lead = 0xF0 then 0x90 \<le> x \<and> x \<le> 0xBF
         else if lead = 0xF4 then 0x80 \<le> x \<and> x \<le> 0x8F
         else 0x80 \<le> x \<and> x \<le> 0xBF)"

fun utf8_first :: "string \<Rightarrow> (string \<times> string) option" where
  "utf8_first [] = None"
| "utf8_first (a # s) =
     (let lead = (of_char a :: nat)
      in if lead = 0 then None
         else if lead < 0x80 then Some ([a], s)
         else if 0xC2 \<le> lead \<and> lead \<le> 0xDF then
           (case s of
              b # r \<Rightarrow> if continuation b then Some ([a, b], r) else None
            | _ \<Rightarrow> None)
         else if 0xE0 \<le> lead \<and> lead \<le> 0xEF then
           (case s of
              b # c # r \<Rightarrow>
                if second_byte lead b \<and> continuation c then Some ([a, b, c], r) else None
            | _ \<Rightarrow> None)
         else if 0xF0 \<le> lead \<and> lead \<le> 0xF4 then
           (case s of
              b # c # d # r \<Rightarrow>
                if second_byte lead b \<and> continuation c \<and> continuation d
                then Some ([a, b, c, d], r) else None
            | _ \<Rightarrow> None)
         else None)"

function utf8_chars :: "string \<Rightarrow> string list option" where
  "utf8_chars s =
     (if s = [] then Some []
      else case utf8_first s of
             None \<Rightarrow> None
           | Some (ch, rest) \<Rightarrow> map_option ((#) ch) (utf8_chars rest))"
  by pat_completeness auto
termination
proof (relation "measure length")
  show "wf (measure length)" by simp
next
  fix s :: string and x ch rest
  assume "s \<noteq> []" and "utf8_first s = Some x" and "(ch, rest) = x"
  then have "utf8_first s = Some (ch, rest)" by simp
  then have "length rest < length s"
    by (cases s) (auto simp: Let_def split: if_splits list.splits)
  then show "(rest, s) \<in> measure length" by simp
qed

declare utf8_chars.simps [simp del]

definition valid_text :: "string \<Rightarrow> bool" where
  "valid_text s = (utf8_chars s \<noteq> None)"

definition characters :: "string \<Rightarrow> nat" where
  "characters s = length (filter (\<lambda>c. \<not> continuation c) s)"

text \<open>
  A UUID is 32 hexadecimal digits, here eight groups of four. \<open>uuid_out\<close> is the text
  that the server writes for it (\<open>id::text\<close>): lower case, with hyphens after the digits
  8, 12, 16 and 20. \<open>uuid_in\<close> is the conversion of a text to a UUID that the server
  applies to the parameter of \<open>WHERE id=$1\<close>: digits in either case, an optional hyphen
  after each group of four digits but the last, the whole optionally in braces; any other
  text is not a UUID.
\<close>

datatype hex = H0 | H1 | H2 | H3 | H4 | H5 | H6 | H7 | H8 | H9 | Ha | Hb | Hc | Hd | He | Hf

type_synonym quad = "hex \<times> hex \<times> hex \<times> hex"

datatype uuid = UUID quad quad quad quad quad quad quad quad

fun hex_out :: "hex \<Rightarrow> char" where
  "hex_out H0 = CHR ''0''" | "hex_out H1 = CHR ''1''" | "hex_out H2 = CHR ''2''"
| "hex_out H3 = CHR ''3''" | "hex_out H4 = CHR ''4''" | "hex_out H5 = CHR ''5''"
| "hex_out H6 = CHR ''6''" | "hex_out H7 = CHR ''7''" | "hex_out H8 = CHR ''8''"
| "hex_out H9 = CHR ''9''" | "hex_out Ha = CHR ''a''" | "hex_out Hb = CHR ''b''"
| "hex_out Hc = CHR ''c''" | "hex_out Hd = CHR ''d''" | "hex_out He = CHR ''e''"
| "hex_out Hf = CHR ''f''"

definition hex_in :: "char \<Rightarrow> hex option" where
  "hex_in = map_of
     [(CHR ''0'', H0), (CHR ''1'', H1), (CHR ''2'', H2), (CHR ''3'', H3), (CHR ''4'', H4),
      (CHR ''5'', H5), (CHR ''6'', H6), (CHR ''7'', H7), (CHR ''8'', H8), (CHR ''9'', H9),
      (CHR ''a'', Ha), (CHR ''b'', Hb), (CHR ''c'', Hc), (CHR ''d'', Hd), (CHR ''e'', He),
      (CHR ''f'', Hf), (CHR ''A'', Ha), (CHR ''B'', Hb), (CHR ''C'', Hc), (CHR ''D'', Hd),
      (CHR ''E'', He), (CHR ''F'', Hf)]"

fun quad_out :: "quad \<Rightarrow> string" where
  "quad_out (w, x, y, z) = [hex_out w, hex_out x, hex_out y, hex_out z]"

fun uuid_out :: "uuid \<Rightarrow> string" where
  "uuid_out (UUID a b c d e f g h) =
     quad_out a @ quad_out b @ ''-'' @ quad_out c @ ''-'' @ quad_out d @ ''-'' @ quad_out e
       @ ''-'' @ quad_out f @ quad_out g @ quad_out h"

fun quad_in :: "string \<Rightarrow> (quad \<times> string) option" where
  "quad_in (a # b # c # d # rest) =
     (case hex_in a of None \<Rightarrow> None | Some w \<Rightarrow>
     (case hex_in b of None \<Rightarrow> None | Some x \<Rightarrow>
     (case hex_in c of None \<Rightarrow> None | Some y \<Rightarrow>
     (case hex_in d of None \<Rightarrow> None | Some z \<Rightarrow> Some ((w, x, y, z), rest)))))"
| "quad_in s = None"

fun hyphen :: "string \<Rightarrow> string" where
  "hyphen [] = []"
| "hyphen (c # rest) = (if c = CHR ''-'' then rest else c # rest)"

definition uuid_digits :: "string \<Rightarrow> (uuid \<times> string) option" where
  "uuid_digits s0 =
     (case quad_in s0 of None \<Rightarrow> None | Some (a, s1) \<Rightarrow>
     (case quad_in (hyphen s1) of None \<Rightarrow> None | Some (b, s2) \<Rightarrow>
     (case quad_in (hyphen s2) of None \<Rightarrow> None | Some (c, s3) \<Rightarrow>
     (case quad_in (hyphen s3) of None \<Rightarrow> None | Some (d, s4) \<Rightarrow>
     (case quad_in (hyphen s4) of None \<Rightarrow> None | Some (e, s5) \<Rightarrow>
     (case quad_in (hyphen s5) of None \<Rightarrow> None | Some (f, s6) \<Rightarrow>
     (case quad_in (hyphen s6) of None \<Rightarrow> None | Some (g, s7) \<Rightarrow>
     (case quad_in (hyphen s7) of None \<Rightarrow> None | Some (h, s8) \<Rightarrow>
        Some (UUID a b c d e f g h, s8)))))))))"

definition uuid_in :: "string \<Rightarrow> uuid option" where
  "uuid_in s =
     (case s of
        [] \<Rightarrow> None
      | c # rest \<Rightarrow>
          if c = CHR ''{''
          then (case uuid_digits rest of
                  None \<Rightarrow> None
                | Some (u, after) \<Rightarrow> if after = ''}'' then Some u else None)
          else (case uuid_digits s of
                  None \<Rightarrow> None
                | Some (u, after) \<Rightarrow> if after = [] then Some u else None))"

section \<open>The tables\<close>

text \<open>
  \<open>createTables\<close> declares two tables. A row of \<open>blog_posts\<close> has the columns
  \<open>id\<close>, \<open>title\<close>, \<open>body\<close>, \<open>images\<close> and \<open>date\<close>, which the queries read into the
  fields of the struct \<open>Post\<close>; a row of \<open>hello_letters\<close> is read into the anonymous
  struct of \<open>getMessages\<close>, here the record \<open>Letter\<close>. A timestamp is a number of
  microseconds. The column \<open>id\<close> holds a UUID; a row keeps it as the text that
  \<open>id::text\<close> writes. A table is the list of its rows in the order of insertion.
\<close>

record Post =
  ID :: string
  Title :: string
  Text :: string
  Images :: "string list"
  Date :: int

record Letter =
  Name :: string
  Email :: string
  Message :: string
  Date :: int

record database =
  blog_posts :: "Post list"
  hello_letters :: "Letter list"

section \<open>The SQL statements\<close>

text \<open>
  What the server does with each statement of the program. A column of type
  \<open>VARCHAR(n)\<close> takes a text of at most \<open>n\<close> characters; a longer one is an error,
  unless the characters beyond the first \<open>n\<close> are all spaces, and then the text is cut
  to \<open>n\<close> characters (the rule of the SQL standard for character varying).
\<close>

definition varchar :: "nat \<Rightarrow> string \<Rightarrow> error + string" where
  "varchar n s =
     (case utf8_chars s of
        None \<Rightarrow> Inl (PqError ''invalid byte sequence for encoding UTF8'')
      | Some cs \<Rightarrow>
          if length cs \<le> n then Inr s
          else if list_all (\<lambda>c. c = '' '') (drop n cs) then Inr (concat (take n cs))
          else Inl (PqError (''value too long for type character varying('' @ decimal n @ '')'')))"

text \<open>
  The environment of a statement that changes a table: whether the driver or the
  connection fails it, the identifier that \<open>gen_random_uuid()\<close> produces and the time
  that \<open>NOW()\<close> returns.
\<close>

record exec_env =
  exec_err :: "error option"
  gen_random_uuid :: uuid
  NOW :: int

text \<open>
  \<^verbatim>\<open>INSERT INTO blog_posts(title,body,images) VALUES($1,$2,$3)\<close> on the table
  \<^verbatim>\<open>id UUID PRIMARY KEY DEFAULT gen_random_uuid(), title VARCHAR(200) NOT NULL,
  body TEXT NOT NULL, images TEXT[] NOT NULL, date TIMESTAMP DEFAULT NOW()\<close>.
  The title and the body are Go strings and never NULL. The server first reads the
  parameters, and rejects bytes that are not text; then it fits the title to its column,
  checks that the images are not NULL and that the identifier is new.
\<close>

definition insert_blog_post ::
  "exec_env \<Rightarrow> database \<Rightarrow> string \<Rightarrow> string \<Rightarrow> string list option \<Rightarrow> error + database" where
  "insert_blog_post env db title body images =
     (case exec_err env of
        Some e \<Rightarrow> Inl e
      | None \<Rightarrow>
          if \<not> (valid_text title \<and> valid_text body
                \<and> list_all valid_text (case images of None \<Rightarrow> [] | Some imgs \<Rightarrow> imgs))
          then Inl (PqError ''invalid byte sequence for encoding UTF8'')
          else
            (case varchar 200 title of
               Inl e \<Rightarrow> Inl e
             | Inr stored_title \<Rightarrow>
                 (case images of
                    None \<Rightarrow> Inl (PqError ''null value in column images violates not-null constraint'')
                  | Some imgs \<Rightarrow>
                      if uuid_out (gen_random_uuid env) \<in> set (map ID (blog_posts db))
                      then Inl (PqError ''duplicate key value violates unique constraint blog_posts_pkey'')
                      else Inr (db\<lparr>blog_posts := blog_posts db @
                             [\<lparr>ID = uuid_out (gen_random_uuid env), Title = stored_title,
                               Text = body, Images = imgs, Date = NOW env\<rparr>]\<rparr>))))"

text \<open>
  \<^verbatim>\<open>ORDER BY date DESC\<close>: the rows by decreasing date. The server leaves the order of
  rows with equal dates open; the model keeps them in the order of insertion.
\<close>

definition posts_by_date_desc :: "Post list \<Rightarrow> Post list" where
  "posts_by_date_desc rows = sort_key (\<lambda>p. - Post.Date p) rows"

definition letters_by_date_desc :: "Letter list \<Rightarrow> Letter list" where
  "letters_by_date_desc rows = sort_key (\<lambda>m. - Letter.Date m) rows"

text \<open>
  \<^verbatim>\<open>SELECT id::text,title,body,images,date FROM blog_posts ORDER BY date DESC LIMIT $1 OFFSET $2\<close>.
  The server rejects a negative offset and a negative limit.
\<close>

definition select_posts_page :: "database \<Rightarrow> int \<Rightarrow> int \<Rightarrow> error + Post list" where
  "select_posts_page db limit_n offset_n =
     (if offset_n < 0 then Inl (PqError ''OFFSET must not be negative'')
      else if limit_n < 0 then Inl (PqError ''LIMIT must not be negative'')
      else Inr (take (nat limit_n) (drop (nat offset_n) (posts_by_date_desc (blog_posts db)))))"

text \<open>
  \<^verbatim>\<open>SELECT name, email, message, date FROM hello_letters ORDER BY date DESC LIMIT 5\<close>.
\<close>

definition select_recent_letters :: "database \<Rightarrow> Letter list" where
  "select_recent_letters db = take 5 (letters_by_date_desc (hello_letters db))"

section \<open>The repository functions\<close>

definition insertPost :: "exec_env \<Rightarrow> database \<Rightarrow> string \<Rightarrow> string \<Rightarrow> string slice \<Rightarrow> error + database" where
  "insertPost env db title body images = insert_blog_post env db title body (pq_Array images)"

text \<open>
  \<open>getPost\<close>: \<open>QueryRow(...).Scan(...)\<close> returns the error of the driver or the
  connection when the query does not run (\<open>fault\<close>). The server converts the parameter
  of \<^verbatim>\<open>SELECT id::text,title,body,images,date FROM blog_posts WHERE id=$1\<close> to a UUID
  and rejects a text that is not one; it compares UUID values, so every spelling of an
  identifier finds its row. \<open>Scan\<close> returns \<open>sql.ErrNoRows\<close> when no row has the
  identifier, and fills the \<open>Post\<close> otherwise.
\<close>

definition getPost :: "error option \<Rightarrow> database \<Rightarrow> string \<Rightarrow> error + Post" where
  "getPost fault db pid =
     (case fault of
        Some e \<Rightarrow> Inl e
      | None \<Rightarrow>
          (case uuid_in pid of
             None \<Rightarrow> Inl (PqError ''invalid input syntax for type uuid'')
           | Some u \<Rightarrow>
               (case find (\<lambda>p. ID p = uuid_out u) (blog_posts db) of
                  None \<Rightarrow> Inl ErrNoRows
                | Some p \<Rightarrow> Inr p)))"

text \<open>
  The environment of a query that returns rows: the error of \<open>db.Query\<close>, the error of
  \<open>rows.Scan\<close> on the row of a given index, and the error that \<open>rows.Err()\<close> reports
  after the loop. \<open>scan_rows\<close> is the loop
  \<^verbatim>\<open>for rows.Next() { if err := rows.Scan(...); err != nil { return nil, err }; xs = append(xs, x) }\<close>.
\<close>

record rows_env =
  query_err :: "error option"
  scan_err :: "nat \<Rightarrow> error option"
  rows_Err :: "error option"

fun scan_rows :: "(nat \<Rightarrow> error option) \<Rightarrow> nat \<Rightarrow> 'a list \<Rightarrow> 'a list \<Rightarrow> error + 'a list" where
  "scan_rows serr i [] acc = Inr acc"
| "scan_rows serr i (r # rs) acc =
     (case serr i of
        Some e \<Rightarrow> Inl e
      | None \<Rightarrow> scan_rows serr (Suc i) rs (acc @ [r]))"

definition getMessages :: "rows_env \<Rightarrow> database \<Rightarrow> error + Letter list" where
  "getMessages env db =
     (case query_err env of
        Some e \<Rightarrow> Inl e
      | None \<Rightarrow>
          (case scan_rows (scan_err env) 0 (select_recent_letters db) [] of
             Inl e \<Rightarrow> Inl e
           | Inr messages \<Rightarrow>
               (case rows_Err env of
                  Some e \<Rightarrow> Inl e
                | None \<Rightarrow> Inr messages)))"

text \<open>
  \<open>getPostsPage\<close> first runs \<^verbatim>\<open>db.QueryRow(`SELECT count(*) FROM blog_posts`).Scan(&total)\<close>
  and drops the error: when the count fails (\<open>count_err\<close>), \<open>total\<close> keeps its zero
  value. The page query and its loop follow.
\<close>

record page_env = rows_env +
  count_err :: "error option"

definition getPostsPage :: "page_env \<Rightarrow> database \<Rightarrow> int \<Rightarrow> int \<Rightarrow> error + Post list \<times> int" where
  "getPostsPage env db page perPage =
     (let tot = (case count_err env of Some e \<Rightarrow> 0 | None \<Rightarrow> int (length (blog_posts db)))
      in case query_err env of
           Some e \<Rightarrow> Inl e
         | None \<Rightarrow>
             (case select_posts_page db perPage (offset page perPage) of
                Inl e \<Rightarrow> Inl e
              | Inr rows \<Rightarrow>
                  (case scan_rows (scan_err env) 0 rows [] of
                     Inl e \<Rightarrow> Inl e
                   | Inr posts \<Rightarrow>
                       (case rows_Err env of
                          Some e \<Rightarrow> Inl e
                        | None \<Rightarrow> Inr (posts, tot)))))"

section \<open>The upload directory\<close>

text \<open>
  An uploaded file has a name and a content. The directory \<open>uploads\<close> maps a file name to
  the content of the file. For the file of index \<open>i\<close> of a request the environment gives
  the error of \<open>fh.Open()\<close>, the reading of \<open>time.Now().UnixNano()\<close>, the error of
  \<open>os.Create\<close>, the error of \<open>io.Copy\<close> with the number of bytes written before it,
  and the error of \<open>dst.Close()\<close> with the number of bytes that the file keeps: a write
  that the system has buffered can fail when the file is closed. The program calls
  \<open>dst.Close()\<close> after the copy and discards its error, as it discards the error of
  \<open>src.Close()\<close>, which changes no file. \<open>os.Create\<close> truncates a file that exists.
  The path \<open>filepath.Join(dir, name)\<close> is the file \<open>name\<close> of the directory. The
  result of \<open>os.MkdirAll\<close> is discarded by the program; a directory that is missing shows
  as the error of \<open>os.Create\<close>.
\<close>

record FileHeader =
  Filename :: string
  content :: string

record io_step =
  open_err :: "error option"
  UnixNano :: int
  create_err :: "error option"
  copy_err :: "(nat \<times> error) option"
  close_err :: "(nat \<times> error) option"

type_synonym uploads_dir = "string \<rightharpoonup> string"

definition closed_file :: "io_step \<Rightarrow> string \<Rightarrow> string" where
  "closed_file step written =
     (case close_err step of
        None \<Rightarrow> written
      | Some (kept, e) \<Rightarrow> take kept written)"

fun saveImages_loop ::
  "(nat \<Rightarrow> io_step) \<Rightarrow> nat \<Rightarrow> FileHeader list \<Rightarrow> string slice \<Rightarrow> uploads_dir
     \<Rightarrow> (error + string slice) \<times> uploads_dir" where
  "saveImages_loop io i [] paths dir = (Inr paths, dir)"
| "saveImages_loop io i (fh # files) paths dir =
     (case open_err (io i) of
        Some e \<Rightarrow> (Inl e, dir)
      | None \<Rightarrow>
          (let name = FormatInt (UnixNano (io i)) @ Ext (Filename fh)
           in case create_err (io i) of
                Some e \<Rightarrow> (Inl e, dir)
              | None \<Rightarrow>
                  (case copy_err (io i) of
                     Some (written, e) \<Rightarrow>
                       (Inl e, dir(name \<mapsto> closed_file (io i) (take written (content fh))))
                   | None \<Rightarrow>
                       saveImages_loop io (Suc i) files
                         (append_slice paths (''/uploads/'' @ name))
                         (dir(name \<mapsto> closed_file (io i) (content fh))))))"

definition saveImages ::
  "(nat \<Rightarrow> io_step) \<Rightarrow> uploads_dir \<Rightarrow> FileHeader list \<Rightarrow> (error + string slice) \<times> uploads_dir" where
  "saveImages io dir files = saveImages_loop io 0 files NilSlice dir"

section \<open>The handlers\<close>

text \<open>
  A request carries what the handlers read from \<open>*http.Request\<close>: the method, the path of
  the URL, the integer that \<open>strconv.Atoi\<close> returns for the query parameter \<open>page\<close>, the
  error of \<open>ParseMultipartForm\<close>, the form values and the files of the form field
  \<open>images\<close>. A response is what the handler writes: an error with its status, a redirect,
  or a template with its data. \<open>Panic\<close> is a run-time panic of the handler.
\<close>

record request =
  Method :: string
  Path :: string
  PageParam :: int
  ParseErr :: "error option"
  FormValue :: "string \<Rightarrow> string"
  Files :: "FileHeader list"

datatype response =
    HttpError string nat
  | Redirect string nat
  | IndexPage "Letter list"
  | BlogPage "Post list" int int
  | PostPage Post
  | Panic

record server =
  db :: database
  uploads :: uploads_dir

definition username :: string where
  "username = ''username''"

definition password :: string where
  "password = ''password''"

definition handleMain :: "rows_env \<Rightarrow> database \<Rightarrow> request \<Rightarrow> response" where
  "handleMain env d r =
     (if Path r \<noteq> ''/'' then HttpError ''404 page not found'' 404
      else IndexPage (case getMessages env d of Inl e \<Rightarrow> [] | Inr messages \<Rightarrow> messages))"

definition handleBlog :: "page_env \<Rightarrow> database \<Rightarrow> request \<Rightarrow> response" where
  "handleBlog env d r =
     (if Method r \<noteq> ''GET'' then HttpError ''Method not allowed'' 405
      else let page = (if PageParam r < 1 then 1 else PageParam r);
               perPage = 3
           in case getPostsPage env d page perPage of
                Inl e \<Rightarrow> HttpError (Error e) 500
              | Inr (posts, tot) \<Rightarrow>
                  (case lastPage tot perPage of
                     None \<Rightarrow> Panic
                   | Some last_page \<Rightarrow> BlogPage posts page last_page))"

definition handlePost :: "error option \<Rightarrow> database \<Rightarrow> request \<Rightarrow> response" where
  "handlePost fault d r =
     (if Method r \<noteq> ''GET'' then HttpError ''Method not allowed'' 405
      else case getPost fault d (Base (Path r)) of
             Inl e \<Rightarrow> HttpError ''post not found'' 404
           | Inr p \<Rightarrow> PostPage p)"

definition handleCreatePost ::
  "(nat \<Rightarrow> io_step) \<Rightarrow> exec_env \<Rightarrow> server \<Rightarrow> request \<Rightarrow> response \<times> server" where
  "handleCreatePost io env s r =
     (if Method r \<noteq> ''POST'' then (HttpError ''Method not allowed'' 405, s)
      else case ParseErr r of
             Some e \<Rightarrow> (HttpError (''Error parsing form: '' @ Error e) 400, s)
           | None \<Rightarrow>
               if FormValue r ''login'' \<noteq> username \<or> FormValue r ''pass'' \<noteq> password
               then (HttpError ''Invalid credentials'' 401, s)
               else (case saveImages io (uploads s) (Files r) of
                       (Inl e, dir) \<Rightarrow>
                         (HttpError (''Error saving images: '' @ Error e) 500, s\<lparr>uploads := dir\<rparr>)
                     | (Inr imgs, dir) \<Rightarrow>
                         (case insertPost env (db s) (FormValue r ''title'') (FormValue r ''text'') imgs of
                            Inl e \<Rightarrow>
                              (HttpError (''Error inserting post: '' @ Error e) 500, s\<lparr>uploads := dir\<rparr>)
                          | Inr db' \<Rightarrow> (Redirect ''/'' 302, \<lparr>db = db', uploads = dir\<rparr>))))"

section \<open>Example stores, requests and environments\<close>

text \<open>The concrete data at which the theorems below are instantiated.\<close>

definition empty_db :: database where
  "empty_db = \<lparr>blog_posts = [], hello_letters = []\<rparr>"

definition first_uuid :: uuid where
  "first_uuid = UUID (H6, Hf, H1, Hc) (H2, Ha, H9, H0) (H4, Hb, H7, Hd) (H4, He, H3, H5)
                     (Ha, H0, Hc, H1) (H5, H2, Hd, H3) (H9, H4, Hb, H6) (H7, H8, He, Hf)"

definition second_uuid :: uuid where
  "second_uuid = UUID (H9, Hb, H2, He) (H5, H1, Hc, H7) (H0, H3, Hf, Ha) (H4, Hd, H6, H8)
                      (Hb, H1, He, H4) (H7, Ha, H2, H0) (Hc, H9, H5, Hf) (H3, Hd, H1, H8)"

definition first_insert :: exec_env where
  "first_insert = \<lparr>exec_err = None, gen_random_uuid = first_uuid, NOW = 1000\<rparr>"

definition second_insert :: exec_env where
  "second_insert = \<lparr>exec_err = None, gen_random_uuid = second_uuid, NOW = 2000\<rparr>"

definition broken_insert :: exec_env where
  "broken_insert = \<lparr>exec_err = Some (DriverError ''connection refused''),
                     gen_random_uuid = second_uuid, NOW = 2000\<rparr>"

definition two_files :: "FileHeader list" where
  "two_files = [\<lparr>Filename = ''a.png'', content = ''A''\<rparr>,
                \<lparr>Filename = ''b.png'', content = ''B''\<rparr>]"

definition second_write_fails :: "nat \<Rightarrow> io_step" where
  "second_write_fails i =
     \<lparr>open_err = None, UnixNano = int i + 1, create_err = None,
      copy_err = (if i = 1 then Some (0, PathError ''no space left on device'') else None),
      close_err = None\<rparr>"

definition close_fails :: "nat \<Rightarrow> io_step" where
  "close_fails i =
     \<lparr>open_err = None, UnixNano = int i + 1, create_err = None, copy_err = None,
      close_err = Some (0, PathError ''disk quota exceeded'')\<rparr>"




definition owner_request :: request where
  "owner_request =
     \<lparr>Method = ''POST'', Path = ''/create/post'', PageParam = 0, ParseErr = None,
      FormValue = (\<lambda>k. if k = ''login'' then ''username''
                        else if k = ''pass'' then ''password''
                        else if k = ''title'' then ''Hello''
                        else if k = ''text'' then ''Body'' else []),
      Files = two_files\<rparr>"

definition fresh_server :: server where
  "fresh_server = \<lparr>db = empty_db, uploads = Map.empty\<rparr>"

definition letter :: "int \<Rightarrow> Letter" where
  "letter t = \<lparr>Name = ''Ann'', Email = ''ann@example.org'', Message = ''Hi'', Date = t\<rparr>"

definition six_letters :: database where
  "six_letters = \<lparr>blog_posts = [], hello_letters = map letter [1, 2, 3, 4, 5, 6]\<rparr>"

definition healthy_rows :: rows_env where
  "healthy_rows = \<lparr>query_err = None, scan_err = (\<lambda>i. None), rows_Err = None\<rparr>"

definition broken_rows :: rows_env where
  "broken_rows = \<lparr>query_err = Some (DriverError ''connection refused''),
                   scan_err = (\<lambda>i. None), rows_Err = None\<rparr>"

definition main_request :: request where
  "main_request = \<lparr>Method = ''GET'', Path = ''/'', PageParam = 0, ParseErr = None,
                    FormValue = (\<lambda>k. []), Files = []\<rparr>"

definition post :: "string \<Rightarrow> int \<Rightarrow> Post" where
  "post i t = \<lparr>ID = i, Title = ''Post '' @ i, Text = ''Text'', Images = [''/uploads/'' @ i],
               Date = t\<rparr>"

definition three_posts :: database where
  "three_posts = \<lparr>blog_posts = [post ''1'' 10, post ''2'' 20, post ''3'' 30],
                    hello_letters = []\<rparr>"

definition seven_posts :: database where
  "seven_posts =
     \<lparr>blog_posts = [post ''1'' 10, post ''2'' 20, post ''3'' 30, post ''4'' 40, post ''5'' 50,
                    post ''6'' 60, post ''7'' 70],
      hello_letters = []\<rparr>"

definition healthy_page :: page_env where
  "healthy_page = \<lparr>query_err = None, scan_err = (\<lambda>i. None), rows_Err = None, count_err = None\<rparr>"

definition count_fails :: page_env where
  "count_fails = \<lparr>query_err = None, scan_err = (\<lambda>i. None), rows_Err = None,
                   count_err = Some (DriverError ''connection reset'')\<rparr>"

definition one_post :: database where
  "one_post = \<lparr>blog_posts = [post ''6f1c2a90-4b7d-4e35-a0c1-52d394b678ef'' 10],
                 hello_letters = []\<rparr>"

definition missing_post_request :: request where
  "missing_post_request =
     \<lparr>Method = ''GET'', Path = ''/post/9b2e51c7-03fa-4d68-b1e4-7a20c95f3d18'', PageParam = 0,
      ParseErr = None, FormValue = (\<lambda>k. []), Files = []\<rparr>"

definition one_file_request :: request where
  "one_file_request =
     \<lparr>Method = ''POST'', Path = ''/create/post'', PageParam = 0, ParseErr = None,
      FormValue = (\<lambda>k. if k = ''login'' then ''username''
                        else if k = ''pass'' then ''password''
                        else if k = ''title'' then ''Hello''
                        else if k = ''text'' then ''Body'' else []),
      Files = [\<lparr>Filename = ''a.png'', content = ''A''\<rparr>]\<rparr>"

definition far_page_request :: request where
  "far_page_request = \<lparr>Method = ''GET'', Path = ''/blog/'', PageParam = 6148914691236517207,
                        ParseErr = None, FormValue = (\<lambda>k. []), Files = []\<rparr>"

section \<open>Properties of the integer model\<close>

lemma wrap_id: "minInt \<le> x \<Longrightarrow> x \<le> maxInt \<Longrightarrow> wrap x = x"
  by (simp add: wrap_def minInt_def maxInt_def)

lemma wrap_cong: "a mod 2 ^ 64 = b mod 2 ^ 64 \<Longrightarrow> wrap a = wrap b"
  unfolding wrap_def by (metis mod_add_left_eq)

lemma wrap_mod: "wrap x mod 2 ^ 64 = x mod 2 ^ 64"
proof -
  have "wrap x = (x + 2 ^ 63) mod 2 ^ 64 - 2 ^ 63"
    by (simp add: wrap_def)
  then have "wrap x mod 2 ^ 64 = ((x + 2 ^ 63) mod 2 ^ 64 - 2 ^ 63) mod 2 ^ 64"
    by simp
  also have "\<dots> = (x + 2 ^ 63 - 2 ^ 63) mod 2 ^ 64"
    by (rule mod_diff_left_eq)
  finally show ?thesis by simp
qed

lemma go_sub_go_add: "go_sub (go_add a b) c = wrap (a + b - c)"
proof -
  have "(wrap (a + b) - c) mod 2 ^ 64 = (a + b - c) mod 2 ^ 64"
    using wrap_mod [of "a + b"] by (metis mod_diff_left_eq)
  then have "wrap (wrap (a + b) - c) = wrap (a + b - c)"
    by (rule wrap_cong)
  then show ?thesis
    by (simp only: go_sub_def go_add_def)
qed

lemma go_mul_go_sub: "go_mul (go_sub a b) c = wrap ((a - b) * c)"
proof -
  have "(wrap (a - b) * c) mod 2 ^ 64 = ((a - b) * c) mod 2 ^ 64"
    using wrap_mod [of "a - b"] by (metis mod_mult_left_eq)
  then have "wrap (wrap (a - b) * c) = wrap ((a - b) * c)"
    by (rule wrap_cong)
  then show ?thesis
    by (simp only: go_mul_def go_sub_def)
qed

lemma offset_exact:
  assumes "minInt \<le> (page - 1) * perPage" and "(page - 1) * perPage \<le> maxInt"
  shows "offset page perPage = (page - 1) * perPage"
  using assms by (simp only: offset_def go_mul_go_sub wrap_id)

lemma lastPage_exact:
  assumes "0 \<le> tot" and "1 \<le> perPage" and "tot + perPage - 1 \<le> maxInt"
  shows "lastPage tot perPage = Some ((tot + perPage - 1) div perPage)"
proof -
  let ?n = "tot + perPage - 1"
  have n0: "0 \<le> ?n" using assms by simp
  have nr: "minInt \<le> ?n" using n0 by (simp add: minInt_def)
  have w: "go_sub (go_add tot perPage) 1 = ?n"
    using nr assms(3) by (simp only: go_sub_go_add wrap_id)
  have q0: "0 \<le> ?n div perPage"
    using n0 assms(2) by (simp add: pos_imp_zdiv_nonneg_iff)
  have "?n div perPage \<le> ?n"
  proof (cases "?n = 0")
    case True
    then show ?thesis by simp
  next
    case False
    then have "0 < ?n" using n0 by simp
    then show ?thesis by (rule int_div_le_self)
  qed
  then have qr: "?n div perPage \<le> maxInt" using assms(3) by simp
  have "minInt \<le> ?n div perPage" using q0 by (simp add: minInt_def)
  then have "wrap (?n div perPage) = ?n div perPage"
    using qr by (rule wrap_id)
  moreover have "sgn ?n * sgn perPage * (\<bar>?n\<bar> div \<bar>perPage\<bar>) = ?n div perPage"
  proof (cases "?n = 0")
    case True
    then show ?thesis by simp
  next
    case False
    then have "0 < ?n" using n0 by simp
    then show ?thesis using assms(2) by simp
  qed
  ultimately show ?thesis
    using assms(2) w by (simp add: lastPage_def go_quo_def)
qed

lemma ceiling_as_div:
  assumes "1 \<le> (b :: int)"
  shows "\<lceil>real_of_int a / real_of_int b\<rceil> = (a + b - 1) div b"
proof -
  let ?q = "(a + b - 1) div b" and ?r = "(a + b - 1) mod b"
  have r: "0 \<le> ?r" "?r < b" using assms by simp_all
  have "a + b - 1 = b * ?q + ?r" by simp
  then have "- a = b * (- ?q) + (b - 1 - ?r)" by (simp add: algebra_simps)
  moreover have "0 \<le> b - 1 - ?r" "b - 1 - ?r < b" using r by simp_all
  ultimately have "- a div b = - ?q" by (rule int_div_pos_eq)
  then show ?thesis
    by (simp add: ceiling_divide_eq_div)
qed

section \<open>The pagination calculator\<close>

text \<open>
  C5, as the code has it. For a count \<open>tot \<ge> 0\<close> and a page size \<open>perPage \<ge> 1\<close> such that
  \<open>tot + perPage - 1\<close> is at most the largest 64-bit integer, the expression of \<open>handleBlog\<close>
  for the last page is the ceiling of \<open>tot / perPage\<close>, which is 0 for an empty store;
  it is 0 at \<open>(0, perPage)\<close>, 3 at \<open>(7, 3)\<close> and 3 at \<open>(9, 3)\<close>. For \<open>page \<ge> 1\<close> such
  that \<open>(page - 1) * perPage\<close> is a 64-bit integer, the offset of \<open>getPostsPage\<close> is
  \<open>(page - 1) * perPage\<close>; it is 0 at \<open>(1, 3)\<close> and 6 at \<open>(3, 3)\<close>.
\<close>

theorem pagination_calculator:
  "(0 \<le> tot \<and> 1 \<le> perPage \<and> tot + perPage - 1 \<le> maxInt \<longrightarrow>
      lastPage tot perPage = Some \<lceil>real_of_int tot / real_of_int perPage\<rceil>)
   \<and> (1 \<le> perPage \<and> perPage \<le> maxInt + 1 \<longrightarrow> lastPage 0 perPage = Some 0)
   \<and> lastPage 7 3 = Some 3
   \<and> lastPage 9 3 = Some 3
   \<and> (1 \<le> page \<and> minInt \<le> (page - 1) * perPage \<and> (page - 1) * perPage \<le> maxInt \<longrightarrow>
        offset page perPage = (page - 1) * perPage)
   \<and> offset 1 3 = 0
   \<and> offset 3 3 = 6"
proof -
  have general: "lastPage t p = Some \<lceil>real_of_int t / real_of_int p\<rceil>"
    if "0 \<le> t" "1 \<le> p" "t + p - 1 \<le> maxInt" for t p
    using that by (simp only: lastPage_exact ceiling_as_div)
  have empty: "lastPage 0 p = Some 0" if "1 \<le> p" "p \<le> maxInt + 1" for p
  proof -
    have "lastPage 0 p = Some ((0 + p - 1) div p)"
      using that by (intro lastPage_exact) simp_all
    moreover have "(p - 1) div p = 0"
      using that by simp
    ultimately show ?thesis by simp
  qed
  have l7: "lastPage 7 3 = Some 3"
    using lastPage_exact [of 7 3] by (simp add: maxInt_def)
  have l9: "lastPage 9 3 = Some 3"
    using lastPage_exact [of 9 3] by (simp add: maxInt_def)
  have o1: "offset 1 3 = 0"
    using offset_exact [of 1 3] by (simp add: minInt_def maxInt_def)
  have o3: "offset 3 3 = 6"
    using offset_exact [of 3 3] by (simp add: minInt_def maxInt_def)
  show ?thesis
    using general [of tot perPage] empty [of perPage] l7 l9 o1 o3
      offset_exact [of page perPage]
    by blast
qed

theorem pagination_calculator_witness:
  "(0 \<le> (7 :: int) \<and> (1 :: int) \<le> 3 \<and> (7 :: int) + 3 - 1 \<le> maxInt)
   \<and> lastPage 7 3 = Some \<lceil>real_of_int 7 / real_of_int 3\<rceil>
   \<and> ((1 :: int) \<le> 3 \<and> (3 :: int) \<le> maxInt + 1) \<and> lastPage 0 3 = Some 0
   \<and> ((1 :: int) \<le> 3 \<and> minInt \<le> (3 - 1) * 3 \<and> (3 - 1) * 3 \<le> maxInt)
   \<and> offset 3 3 = (3 - 1) * 3"
  using pagination_calculator [of 7 3 3]
  by (simp add: minInt_def maxInt_def)

text \<open>
  The statement without the bound fails: for a count of \<open>2 ^ 63 - 1\<close> rows and the page
  size 3 the sum \<open>total + perPage\<close> wraps around and the last page is negative, while
  the ceiling of the quotient is \<open>3074457345618258603\<close>.
\<close>

theorem lastPage_overflow_counterexample:
  "(0 :: int) \<le> 9223372036854775807 \<and> (1 :: int) \<le> 3
   \<and> lastPage 9223372036854775807 3 = Some (- 3074457345618258602)
   \<and> \<lceil>real_of_int 9223372036854775807 / real_of_int 3\<rceil> = 3074457345618258603
   \<and> lastPage 9223372036854775807 3
       \<noteq> Some \<lceil>real_of_int 9223372036854775807 / real_of_int 3\<rceil>"
  by (simp add: lastPage_def go_quo_def go_sub_def go_add_def wrap_def)

section \<open>Properties of texts and identifiers\<close>

lemma second_byte_continuation: "second_byte lead c \<Longrightarrow> continuation c"
  by (auto simp: second_byte_def continuation_def Let_def split: if_splits)

lemma characters_append: "characters (xs @ ys) = characters xs + characters ys"
  by (simp add: characters_def)

lemma characters_le_length: "characters s \<le> length s"
  by (simp add: characters_def)

lemma utf8_first_split:
  assumes "utf8_first s = Some (ch, rest)"
  shows "s = ch @ rest \<and> characters ch = 1"
proof (cases s)
  case Nil
  then show ?thesis using assms by simp
next
  case (Cons a t)
  have lead: "\<not> continuation a"
    using assms Cons by (auto simp: Let_def continuation_def split: if_splits)
  show ?thesis
    using assms Cons lead
    by (auto simp: Let_def characters_def dest: second_byte_continuation
             split: if_splits list.splits)
qed

lemma utf8_chars_decodes:
  "utf8_chars s = Some cs \<Longrightarrow> concat cs = s \<and> length cs = characters s"
proof (induction s arbitrary: cs rule: utf8_chars.induct)
  case (1 s)
  show ?case
  proof (cases "s = []")
    case True
    then show ?thesis using "1.prems" by (simp add: utf8_chars.simps characters_def)
  next
    case False
    then obtain ch rest tl_cs where first: "utf8_first s = Some (ch, rest)"
      and rest: "utf8_chars rest = Some tl_cs" and cs: "cs = ch # tl_cs"
      using "1.prems" by (subst (asm) utf8_chars.simps) (auto split: option.splits)
    have "concat tl_cs = rest \<and> length tl_cs = characters rest"
      using "1.IH" [OF False first refl rest] .
    then show ?thesis
      using utf8_first_split [OF first] cs by (simp add: characters_append)
  qed
qed

lemma utf8_chars_ascii:
  assumes "\<forall>c \<in> set s. 0 < (of_char c :: nat) \<and> (of_char c :: nat) < 0x80"
  shows "utf8_chars s = Some (map (\<lambda>c. [c]) s)"
  using assms
proof (induction s)
  case Nil
  then show ?case by (simp add: utf8_chars.simps)
next
  case (Cons a s)
  then have "utf8_first (a # s) = Some ([a], s)"
    by (simp add: Let_def)
  then show ?case
    using Cons by (subst utf8_chars.simps) simp
qed

lemma valid_text_ascii:
  "\<forall>c \<in> set s. 0 < (of_char c :: nat) \<and> (of_char c :: nat) < 0x80 \<Longrightarrow> valid_text s"
  by (simp add: valid_text_def utf8_chars_ascii)

lemma varchar_fits:
  assumes "valid_text s" and "characters s \<le> n"
  shows "varchar n s = Inr s"
proof -
  obtain cs where cs: "utf8_chars s = Some cs"
    using assms(1) by (auto simp: valid_text_def)
  then have "length cs \<le> n"
    using utf8_chars_decodes [OF cs] assms(2) by simp
  then show ?thesis
    by (simp add: varchar_def cs)
qed

lemma hex_in_out: "hex_in (hex_out h) = Some h"
  by (cases h) (simp_all add: hex_in_def)

lemma hex_out_not_hyphen: "hex_out h \<noteq> CHR ''-''"
  by (cases h) simp_all

lemma quad_in_out: "quad_in (quad_out q @ rest) = Some (q, rest)"
  by (cases q) (simp add: hex_in_out)

lemma hyphen_quad: "hyphen (quad_out q @ rest) = quad_out q @ rest"
  by (cases q) (simp add: hex_out_not_hyphen)

lemma hyphen_skips: "hyphen (CHR ''-'' # rest) = rest"
  by simp

lemma uuid_digits_out: "uuid_digits (uuid_out u @ rest) = Some (u, rest)"
proof (cases u)
  case (UUID a b c d e f g h)
  then show ?thesis
    by (simp add: uuid_digits_def quad_in_out hyphen_quad hyphen_skips
          del: quad_out.simps hyphen.simps)
qed

lemma uuid_out_not_brace: "uuid_out u \<noteq> [] \<and> hd (uuid_out u) \<noteq> CHR ''{''"
proof (cases u)
  case (UUID a b c d e f g h)
  obtain w x y z where "a = (w, x, y, z)" by (cases a)
  then show ?thesis
    using UUID by (cases w) simp_all
qed

lemma uuid_in_out: "uuid_in (uuid_out u) = Some u"
proof -
  obtain c rest where s: "uuid_out u = c # rest" and c: "c \<noteq> CHR ''{''"
    using uuid_out_not_brace [of u] by (cases "uuid_out u") auto
  have "uuid_digits (c # rest) = Some (u, [])"
    using uuid_digits_out [of u "[]"] s by simp
  then show ?thesis
    using s c by (simp add: uuid_in_def)
qed

section \<open>Creating and fetching a post\<close>

lemma find_appended_row:
  assumes "pid \<notin> set (map ID rows)" and "ID row = pid"
  shows "find (\<lambda>p. ID p = pid) (rows @ [row]) = Some row"
  using assms by (induction rows) auto

lemma insertPost_stores:
  assumes "exec_err env = None"
    and "uuid_out (gen_random_uuid env) \<notin> set (map ID (blog_posts d))"
    and "valid_text title" and "characters title \<le> 200"
    and "valid_text body" and "\<forall>img \<in> set imgs. valid_text img"
  shows "insertPost env d title body (Slice imgs) =
           Inr (d\<lparr>blog_posts := blog_posts d @
                  [\<lparr>ID = uuid_out (gen_random_uuid env), Title = title, Text = body,
                    Images = imgs, Date = NOW env\<rparr>]\<rparr>)"
  using assms
  by (simp add: insertPost_def insert_blog_post_def varchar_fits list_all_iff)

lemma insertPost_success:
  assumes "insertPost env d title body images = Inr d'" and "characters title \<le> 200"
  shows "uuid_out (gen_random_uuid env) \<notin> set (map ID (blog_posts d))
         \<and> blog_posts d' = blog_posts d @
               [\<lparr>ID = uuid_out (gen_random_uuid env), Title = title, Text = body,
                 Images = elems images, Date = NOW env\<rparr>]"
proof -
  have valid: "valid_text title"
    using assms(1)
    by (auto simp: insertPost_def insert_blog_post_def split: option.splits if_splits)
  then have fits: "varchar 200 title = Inr title"
    using assms(2) by (rule varchar_fits)
  show ?thesis
  proof (cases images)
    case NilSlice
    then show ?thesis
      using assms(1) fits
      by (simp add: insertPost_def insert_blog_post_def split: option.splits if_splits)
  next
    case (Slice imgs)
    then show ?thesis
      using assms(1) fits
      by (auto simp: insertPost_def insert_blog_post_def split: option.splits if_splits)
  qed
qed

lemma insertPost_failure:
  assumes "insertPost env d title body images = Inl e"
  shows "exec_err env = Some e \<or> (\<exists>m. e = PqError m)"
  using assms
  by (auto simp: insertPost_def insert_blog_post_def varchar_def
           split: option.splits sum.splits if_splits)

text \<open>
  C1, as the code has it. For every title of at most 200 characters, every body and every
  list of image references: when creating the post succeeds, fetching the post by the
  generated identifier returns the post with that identifier whose title, body and image
  references are the ones given at creation, the image references in the same order. The
  fetch finds it under the text of the identifier and under every other spelling of it.
\<close>

theorem create_then_get:
  assumes "characters title \<le> 200"
    and "insertPost env d title body images = Inr d'"
  shows "getPost None d' (uuid_out (gen_random_uuid env)) =
           Inr \<lparr>ID = uuid_out (gen_random_uuid env), Title = title, Text = body,
                Images = elems images, Date = NOW env\<rparr>
         \<and> (uuid_in pid = Some (gen_random_uuid env) \<longrightarrow>
              getPost None d' pid =
                Inr \<lparr>ID = uuid_out (gen_random_uuid env), Title = title, Text = body,
                     Images = elems images, Date = NOW env\<rparr>)"
proof -
  let ?row = "\<lparr>ID = uuid_out (gen_random_uuid env), Title = title, Text = body,
               Images = elems images, Date = NOW env\<rparr>"
  have fresh: "uuid_out (gen_random_uuid env) \<notin> set (map ID (blog_posts d))"
    and rows: "blog_posts d' = blog_posts d @ [?row]"
    using insertPost_success [OF assms(2) assms(1)] by simp_all
  have found: "find (\<lambda>p. ID p = uuid_out (gen_random_uuid env)) (blog_posts d @ [?row])
                 = Some ?row"
    using fresh by (rule find_appended_row) simp
  have "getPost None d' pid = Inr ?row" if "uuid_in pid = Some (gen_random_uuid env)"
    using that found by (simp add: getPost_def rows)
  moreover have "getPost None d' (uuid_out (gen_random_uuid env)) = Inr ?row"
    using found by (simp add: getPost_def rows uuid_in_out)
  ultimately show ?thesis by blast
qed

theorem create_then_get_witness:
  "characters ''Hello'' \<le> 200
   \<and> insertPost first_insert empty_db ''Hello'' ''First post''
         (Slice [''/uploads/2.png'', ''/uploads/1.png''])
       = Inr \<lparr>blog_posts = [\<lparr>ID = ''6f1c2a90-4b7d-4e35-a0c1-52d394b678ef'', Title = ''Hello'',
                 Text = ''First post'', Images = [''/uploads/2.png'', ''/uploads/1.png''],
                 Date = 1000\<rparr>],
              hello_letters = []\<rparr>
   \<and> getPost None
         \<lparr>blog_posts = [\<lparr>ID = ''6f1c2a90-4b7d-4e35-a0c1-52d394b678ef'', Title = ''Hello'',
                 Text = ''First post'', Images = [''/uploads/2.png'', ''/uploads/1.png''],
                 Date = 1000\<rparr>],
          hello_letters = []\<rparr> ''6f1c2a90-4b7d-4e35-a0c1-52d394b678ef''
       = Inr \<lparr>ID = ''6f1c2a90-4b7d-4e35-a0c1-52d394b678ef'', Title = ''Hello'',
              Text = ''First post'', Images = [''/uploads/2.png'', ''/uploads/1.png''],
              Date = 1000\<rparr>
   \<and> uuid_in ''{6F1C2A90-4B7D-4E35-A0C1-52D394B678EF}'' = Some (gen_random_uuid first_insert)
   \<and> getPost None
         \<lparr>blog_posts = [\<lparr>ID = ''6f1c2a90-4b7d-4e35-a0c1-52d394b678ef'', Title = ''Hello'',
                 Text = ''First post'', Images = [''/uploads/2.png'', ''/uploads/1.png''],
                 Date = 1000\<rparr>],
          hello_letters = []\<rparr> ''{6F1C2A90-4B7D-4E35-A0C1-52D394B678EF}''
       = Inr \<lparr>ID = ''6f1c2a90-4b7d-4e35-a0c1-52d394b678ef'', Title = ''Hello'',
              Text = ''First post'', Images = [''/uploads/2.png'', ''/uploads/1.png''],
              Date = 1000\<rparr>"
proof -
  have len: "characters ''Hello'' \<le> 200"
    using characters_le_length [of "''Hello''"] by simp
  have out: "uuid_out first_uuid = ''6f1c2a90-4b7d-4e35-a0c1-52d394b678ef''"
    by (simp add: first_uuid_def)
  have ins: "insertPost first_insert empty_db ''Hello'' ''First post''
               (Slice [''/uploads/2.png'', ''/uploads/1.png''])
             = Inr \<lparr>blog_posts = [\<lparr>ID = ''6f1c2a90-4b7d-4e35-a0c1-52d394b678ef'',
                       Title = ''Hello'', Text = ''First post'',
                       Images = [''/uploads/2.png'', ''/uploads/1.png''], Date = 1000\<rparr>],
                    hello_letters = []\<rparr>"
    using insertPost_stores [of first_insert empty_db "''Hello''" "''First post''"
        "[''/uploads/2.png'', ''/uploads/1.png'']"] len
    by (simp add: valid_text_ascii first_insert_def empty_db_def out)
  have spelled: "uuid_in ''{6F1C2A90-4B7D-4E35-A0C1-52D394B678EF}''
                   = Some (gen_random_uuid first_insert)"
    by (simp add: uuid_in_def uuid_digits_def hex_in_def first_insert_def first_uuid_def)
  show ?thesis
    using len ins spelled
      create_then_get [OF len ins, of "''{6F1C2A90-4B7D-4E35-A0C1-52D394B678EF}''"]
    by (simp add: first_insert_def out)
qed

text \<open>
  Without the bound the round trip fails. A title of 200 letters followed by one space is
  accepted by the column \<open>title VARCHAR(200)\<close> and stored without the space: creating
  succeeds, and the post fetched by the generated identifier has a title of 200
  characters, not the 201 given.
\<close>

theorem create_then_get_counterexample:
  "insertPost first_insert empty_db (replicate 200 CHR ''a'' @ '' '') ''First post''
       (Slice [''/uploads/1.png''])
     = Inr \<lparr>blog_posts = [\<lparr>ID = ''6f1c2a90-4b7d-4e35-a0c1-52d394b678ef'',
               Title = replicate 200 CHR ''a'', Text = ''First post'',
               Images = [''/uploads/1.png''], Date = 1000\<rparr>],
            hello_letters = []\<rparr>
   \<and> getPost None
         \<lparr>blog_posts = [\<lparr>ID = ''6f1c2a90-4b7d-4e35-a0c1-52d394b678ef'',
               Title = replicate 200 CHR ''a'', Text = ''First post'',
               Images = [''/uploads/1.png''], Date = 1000\<rparr>],
          hello_letters = []\<rparr> ''6f1c2a90-4b7d-4e35-a0c1-52d394b678ef''
       = Inr \<lparr>ID = ''6f1c2a90-4b7d-4e35-a0c1-52d394b678ef'',
              Title = replicate 200 CHR ''a'', Text = ''First post'',
              Images = [''/uploads/1.png''], Date = 1000\<rparr>
   \<and> replicate 200 CHR ''a'' \<noteq> replicate 200 CHR ''a'' @ '' ''"
proof -
  let ?title = "replicate 200 CHR ''a'' @ '' ''"
  have out: "uuid_out first_uuid = ''6f1c2a90-4b7d-4e35-a0c1-52d394b678ef''"
    by (simp add: first_uuid_def)
  have chars: "utf8_chars ?title = Some (map (\<lambda>c. [c]) ?title)"
    by (rule utf8_chars_ascii) auto
  have cut: "varchar 200 ?title = Inr (replicate 200 CHR ''a'')"
    by (simp add: varchar_def chars)
  have valid: "valid_text ?title"
    by (simp add: valid_text_def chars)
  have ins: "insertPost first_insert empty_db ?title ''First post'' (Slice [''/uploads/1.png''])
     = Inr \<lparr>blog_posts = [\<lparr>ID = ''6f1c2a90-4b7d-4e35-a0c1-52d394b678ef'',
               Title = replicate 200 CHR ''a'', Text = ''First post'',
               Images = [''/uploads/1.png''], Date = 1000\<rparr>],
            hello_letters = []\<rparr>"
    using valid cut
    by (simp add: insertPost_def insert_blog_post_def valid_text_ascii first_insert_def
          empty_db_def out)
  have get: "getPost None
         \<lparr>blog_posts = [\<lparr>ID = ''6f1c2a90-4b7d-4e35-a0c1-52d394b678ef'',
               Title = replicate 200 CHR ''a'', Text = ''First post'',
               Images = [''/uploads/1.png''], Date = 1000\<rparr>],
          hello_letters = []\<rparr> ''6f1c2a90-4b7d-4e35-a0c1-52d394b678ef''
       = Inr \<lparr>ID = ''6f1c2a90-4b7d-4e35-a0c1-52d394b678ef'',
              Title = replicate 200 CHR ''a'', Text = ''First post'',
              Images = [''/uploads/1.png''], Date = 1000\<rparr>"
    using uuid_in_out [of first_uuid] by (simp add: getPost_def out)
  show ?thesis
    using ins get by simp
qed

text \<open>
  C9, as the code has it. \<open>insertPost\<close> has no check of its own; the table limits the
  title to 200 characters, and the server takes only text. On a store that executes the
  statement and generates a fresh identifier, every title of at most 200 characters,
  every body and every non-nil slice of image references, all of them text, is accepted
  and stored as given, the empty title and the empty body included. Every failure of
  \<open>insertPost\<close> is an error of the store: the error of the driver, or an error that the
  database server reports.
\<close>

theorem create_accepts:
  "(exec_err env = None \<and> uuid_out (gen_random_uuid env) \<notin> set (map ID (blog_posts d))
      \<and> valid_text title \<and> characters title \<le> 200 \<and> valid_text body
      \<and> (\<forall>img \<in> set imgs. valid_text img) \<longrightarrow>
      insertPost env d title body (Slice imgs) =
        Inr (d\<lparr>blog_posts := blog_posts d @
               [\<lparr>ID = uuid_out (gen_random_uuid env), Title = title, Text = body,
                 Images = imgs, Date = NOW env\<rparr>]\<rparr>))
   \<and> (exec_err env = None \<and> uuid_out (gen_random_uuid env) \<notin> set (map ID (blog_posts d))
      \<and> (\<forall>img \<in> set imgs. valid_text img) \<longrightarrow>
      insertPost env d [] [] (Slice imgs) =
        Inr (d\<lparr>blog_posts := blog_posts d @
               [\<lparr>ID = uuid_out (gen_random_uuid env), Title = [], Text = [],
                 Images = imgs, Date = NOW env\<rparr>]\<rparr>))
   \<and> (insertPost env d title body images = Inl e \<longrightarrow>
      exec_err env = Some e \<or> (\<exists>m. e = PqError m))"
proof (intro conjI impI)
  assume "exec_err env = None \<and> uuid_out (gen_random_uuid env) \<notin> set (map ID (blog_posts d))
      \<and> valid_text title \<and> characters title \<le> 200 \<and> valid_text body
      \<and> (\<forall>img \<in> set imgs. valid_text img)"
  then show "insertPost env d title body (Slice imgs) =
        Inr (d\<lparr>blog_posts := blog_posts d @
               [\<lparr>ID = uuid_out (gen_random_uuid env), Title = title, Text = body,
                 Images = imgs, Date = NOW env\<rparr>]\<rparr>)"
    by (simp add: insertPost_stores)
next
  have empty: "valid_text []" "characters [] \<le> 200"
    by (simp_all add: valid_text_def characters_def utf8_chars.simps)
  assume "exec_err env = None \<and> uuid_out (gen_random_uuid env) \<notin> set (map ID (blog_posts d))
      \<and> (\<forall>img \<in> set imgs. valid_text img)"
  then show "insertPost env d [] [] (Slice imgs) =
        Inr (d\<lparr>blog_posts := blog_posts d @
               [\<lparr>ID = uuid_out (gen_random_uuid env), Title = [], Text = [],
                 Images = imgs, Date = NOW env\<rparr>]\<rparr>)"
    using empty by (simp add: insertPost_stores)
next
  assume "insertPost env d title body images = Inl e"
  then show "exec_err env = Some e \<or> (\<exists>m. e = PqError m)"
    by (rule insertPost_failure)
qed

theorem create_accepts_witness:
  "(exec_err second_insert = None
      \<and> uuid_out (gen_random_uuid second_insert) \<notin> set (map ID (blog_posts empty_db))
      \<and> valid_text ''Hello'' \<and> characters ''Hello'' \<le> 200 \<and> valid_text ''Body''
      \<and> valid_text ''/uploads/1.png'')
   \<and> insertPost second_insert empty_db ''Hello'' ''Body'' (Slice [''/uploads/1.png''])
       = Inr \<lparr>blog_posts = [\<lparr>ID = ''9b2e51c7-03fa-4d68-b1e4-7a20c95f3d18'', Title = ''Hello'',
                 Text = ''Body'', Images = [''/uploads/1.png''], Date = 2000\<rparr>],
              hello_letters = []\<rparr>
   \<and> insertPost second_insert empty_db [] [] (Slice [''/uploads/1.png''])
       = Inr \<lparr>blog_posts = [\<lparr>ID = ''9b2e51c7-03fa-4d68-b1e4-7a20c95f3d18'', Title = [],
                 Text = [], Images = [''/uploads/1.png''], Date = 2000\<rparr>],
              hello_letters = []\<rparr>
   \<and> insertPost broken_insert empty_db ''Hello'' ''Body'' (Slice [''/uploads/1.png''])
       = Inl (DriverError ''connection refused'')
   \<and> exec_err broken_insert = Some (DriverError ''connection refused'')"
proof -
  have out: "uuid_out second_uuid = ''9b2e51c7-03fa-4d68-b1e4-7a20c95f3d18''"
    by (simp add: second_uuid_def)
  have texts: "valid_text ''Hello'' \<and> characters ''Hello'' \<le> 200 \<and> valid_text ''Body''
      \<and> valid_text ''/uploads/1.png''"
    using characters_le_length [of "''Hello''"] by (simp add: valid_text_ascii)
  have broken: "insertPost broken_insert empty_db ''Hello'' ''Body'' (Slice [''/uploads/1.png''])
       = Inl (DriverError ''connection refused'')"
    by (simp add: insertPost_def insert_blog_post_def broken_insert_def)
  show ?thesis
    using broken texts
      create_accepts [of second_insert empty_db "''Hello''" "''Body''" "[''/uploads/1.png'']"
        "Slice [''/uploads/1.png'']" "DriverError ''connection refused''"]
      create_accepts [of broken_insert empty_db "''Hello''" "''Body''" "[''/uploads/1.png'']"
        "Slice [''/uploads/1.png'']" "DriverError ''connection refused''"]
    by (simp add: second_insert_def broken_insert_def empty_db_def out)
qed

text \<open>
  The table does impose a constraint on the title. On a store that executes the statement
  and generates a fresh identifier, a title of 201 letters is rejected, where the same
  request with a title of 200 letters is accepted. A title with the byte 0 is rejected
  as well: it is not text.
\<close>

theorem create_title_too_long_counterexample:
  "exec_err second_insert = None
   \<and> insertPost second_insert empty_db (replicate 201 CHR ''a'') ''Body'' (Slice [''/uploads/1.png''])
       = Inl (PqError ''value too long for type character varying(200)'')
   \<and> insertPost second_insert empty_db (replicate 200 CHR ''a'') ''Body'' (Slice [''/uploads/1.png''])
       = Inr \<lparr>blog_posts = [\<lparr>ID = ''9b2e51c7-03fa-4d68-b1e4-7a20c95f3d18'',
                 Title = replicate 200 CHR ''a'', Text = ''Body'',
                 Images = [''/uploads/1.png''], Date = 2000\<rparr>], hello_letters = []\<rparr>
   \<and> insertPost second_insert empty_db [CHR 0x00] ''Body'' (Slice [''/uploads/1.png''])
       = Inl (PqError ''invalid byte sequence for encoding UTF8'')"
proof -
  have out: "uuid_out second_uuid = ''9b2e51c7-03fa-4d68-b1e4-7a20c95f3d18''"
    by (simp add: second_uuid_def)
  have env: "exec_err second_insert = None"
    by (simp add: second_insert_def)
  have chars: "utf8_chars (replicate n CHR ''a'') = Some (map (\<lambda>c. [c]) (replicate n CHR ''a''))"
    for n
    by (rule utf8_chars_ascii) auto
  have long: "varchar 200 (replicate 201 CHR ''a'')
                = Inl (PqError ''value too long for type character varying(200)'')"
    by (simp add: varchar_def chars decimal.simps)
  have fits: "varchar 200 (replicate 200 CHR ''a'') = Inr (replicate 200 CHR ''a'')"
    by (simp add: varchar_def chars)
  have valid: "valid_text (replicate n CHR ''a'')" for n
    by (simp add: valid_text_def chars)
  have rejected: "insertPost second_insert empty_db (replicate 201 CHR ''a'') ''Body''
        (Slice [''/uploads/1.png''])
       = Inl (PqError ''value too long for type character varying(200)'')"
    using long valid [of 201]
    by (simp add: insertPost_def insert_blog_post_def valid_text_ascii second_insert_def)
  have accepted: "insertPost second_insert empty_db (replicate 200 CHR ''a'') ''Body''
        (Slice [''/uploads/1.png''])
       = Inr \<lparr>blog_posts = [\<lparr>ID = ''9b2e51c7-03fa-4d68-b1e4-7a20c95f3d18'',
                 Title = replicate 200 CHR ''a'', Text = ''Body'',
                 Images = [''/uploads/1.png''], Date = 2000\<rparr>], hello_letters = []\<rparr>"
    using fits valid [of 200]
    by (simp add: insertPost_def insert_blog_post_def valid_text_ascii second_insert_def
          empty_db_def out)
  have nul: "insertPost second_insert empty_db [CHR 0x00] ''Body'' (Slice [''/uploads/1.png''])
       = Inl (PqError ''invalid byte sequence for encoding UTF8'')"
    by (simp add: insertPost_def insert_blog_post_def valid_text_def second_insert_def
          utf8_chars.simps)
  show ?thesis
    using env rejected accepted nul by simp
qed

section \<open>Fetching a post that does not exist\<close>

lemma getPost_failure:
  assumes "getPost fault d pid = Inl e"
  shows "e = ErrNoRows \<or> fault = Some e
         \<or> (uuid_in pid = None \<and> e = PqError ''invalid input syntax for type uuid'')"
  using assms by (auto simp: getPost_def split: option.splits)

text \<open>
  C8, as the code has it. An identifier is the text of a UUID or it is not; no post has
  it when it is not one, or when no row has its UUID. For every identifier that is the
  text of a UUID and that no post has, \<open>getPost\<close> returns \<open>sql.ErrNoRows\<close> when the
  query runs. For every identifier that no post has, \<open>getPost\<close> returns an error and no
  post, whatever the driver does; the error is \<open>sql.ErrNoRows\<close>, the error of the driver,
  or the rejection of a text that is not a UUID; and \<open>handlePost\<close> answers every such
  request with the status 404 and the message "post not found", never with a post and
  never with another status.
\<close>

theorem get_missing_post_not_found:
  assumes "\<forall>u. uuid_in pid = Some u \<longrightarrow> uuid_out u \<notin> set (map ID (blog_posts d))"
  shows "(uuid_in pid \<noteq> None \<longrightarrow> getPost None d pid = Inl ErrNoRows)
         \<and> (\<exists>e. getPost fault d pid = Inl e
                \<and> (e = ErrNoRows \<or> fault = Some e
                    \<or> (uuid_in pid = None \<and> e = PqError ''invalid input syntax for type uuid'')))
         \<and> (Method r = ''GET'' \<and> Base (Path r) = pid \<longrightarrow>
              handlePost fault d r = HttpError ''post not found'' 404)"
proof -
  have none: "find (\<lambda>p. ID p = uuid_out u) (blog_posts d) = None" if "uuid_in pid = Some u" for u
  proof -
    have "uuid_out u \<notin> ID ` set (blog_posts d)"
      using assms that by simp
    then show ?thesis
      by (force simp: find_None_iff)
  qed
  have norows: "getPost None d pid = Inl ErrNoRows" if "uuid_in pid \<noteq> None"
    using that none by (auto simp: getPost_def)
  have "\<exists>e. getPost fault d pid = Inl e"
    using none by (cases fault; cases "uuid_in pid") (simp_all add: getPost_def)
  then obtain e where err: "getPost fault d pid = Inl e" ..
  have kind: "e = ErrNoRows \<or> fault = Some e
         \<or> (uuid_in pid = None \<and> e = PqError ''invalid input syntax for type uuid'')"
    using err by (rule getPost_failure)
  have "handlePost fault d r = HttpError ''post not found'' 404"
    if "Method r = ''GET''" "Base (Path r) = pid"
    using that err by (simp add: handlePost_def)
  then show ?thesis
    using norows err kind by blast
qed

theorem get_missing_post_not_found_witness:
  "uuid_in ''9b2e51c7-03fa-4d68-b1e4-7a20c95f3d18'' = Some second_uuid
   \<and> uuid_out second_uuid \<notin> set (map ID (blog_posts one_post))
   \<and> getPost None one_post ''9b2e51c7-03fa-4d68-b1e4-7a20c95f3d18'' = Inl ErrNoRows
   \<and> (Method missing_post_request = ''GET''
        \<and> Base (Path missing_post_request) = ''9b2e51c7-03fa-4d68-b1e4-7a20c95f3d18'')
   \<and> handlePost None one_post missing_post_request = HttpError ''post not found'' 404
   \<and> handlePost (Some (DriverError ''connection refused'')) one_post missing_post_request
       = HttpError ''post not found'' 404"
proof -
  let ?pid = "''9b2e51c7-03fa-4d68-b1e4-7a20c95f3d18''"
  have out: "uuid_out second_uuid = ?pid"
    by (simp add: second_uuid_def)
  have parsed: "uuid_in ?pid = Some second_uuid"
    using uuid_in_out [of second_uuid] by (simp only: out)
  have fresh: "uuid_out second_uuid \<notin> set (map ID (blog_posts one_post))"
    by (simp add: out one_post_def post_def)
  have absent: "\<forall>u. uuid_in ?pid = Some u \<longrightarrow> uuid_out u \<notin> set (map ID (blog_posts one_post))"
    using parsed fresh by simp
  have req: "Method missing_post_request = ''GET'' \<and> Base (Path missing_post_request) = ?pid"
    by (simp add: missing_post_request_def Base_def)
  show ?thesis
    using parsed fresh req
      get_missing_post_not_found [OF absent, of None missing_post_request]
      get_missing_post_not_found [OF absent, of "Some (DriverError ''connection refused'')"
        missing_post_request]
    by simp
qed

text \<open>
  Without the two conditions the statement fails for \<open>getPost\<close>. The identifier \<open>8\<close> of
  the request \<open>/post/8\<close> is not the text of a UUID: no post has it, and on a store that
  works \<open>getPost\<close> returns the error of the server for the parameter, not
  \<open>sql.ErrNoRows\<close>. And for an identifier that no post has, a query that does not run
  returns the error of the driver.
\<close>

theorem get_missing_post_counterexample:
  "uuid_in ''8'' = None
   \<and> Base ''/post/8'' = ''8''
   \<and> getPost None one_post ''8'' = Inl (PqError ''invalid input syntax for type uuid'')
   \<and> uuid_out second_uuid \<notin> set (map ID (blog_posts one_post))
   \<and> getPost (Some (DriverError ''connection refused'')) one_post (uuid_out second_uuid)
       = Inl (DriverError ''connection refused'')"
  by (simp add: getPost_def uuid_in_def uuid_digits_def Base_def one_post_def post_def
        second_uuid_def)

section \<open>The names of uploaded files\<close>














section \<open>The references of stored images\<close>






section \<open>Images are stored before the post is created\<close>

lemma saveImages_loop_fails:
  assumes "j < length files"
    and "open_err (io (i + j)) \<noteq> None \<or> create_err (io (i + j)) \<noteq> None
         \<or> copy_err (io (i + j)) \<noteq> None"
  shows "\<exists>e dir'. saveImages_loop io i files paths dir = (Inl e, dir')"
  using assms
proof (induction files arbitrary: i j paths dir)
  case Nil
  then show ?case by simp
next
  case (Cons fh files)
  show ?case
  proof (cases "open_err (io i) = None \<and> create_err (io i) = None \<and> copy_err (io i) = None")
    case False
    then show ?thesis
      by (auto simp: Let_def split: option.splits)
  next
    case True
    then have "j \<noteq> 0"
      using Cons.prems(2) by (cases j) auto
    then obtain k where k: "j = Suc k"
      by (cases j) auto
    have "k < length files"
      using Cons.prems(1) k by simp
    moreover have "open_err (io (Suc i + k)) \<noteq> None \<or> create_err (io (Suc i + k)) \<noteq> None
         \<or> copy_err (io (Suc i + k)) \<noteq> None"
      using Cons.prems(2) k by simp
    ultimately have "\<exists>e dir'. saveImages_loop io (Suc i) files
        (append_slice paths (''/uploads/'' @ FormatInt (UnixNano (io i)) @ Ext (Filename fh)))
        (dir(FormatInt (UnixNano (io i)) @ Ext (Filename fh) \<mapsto> closed_file (io i) (content fh)))
          = (Inl e, dir')"
      by (rule Cons.IH)
    then show ?thesis
      using True by (simp add: Let_def)
  qed
qed

lemma saveImages_fails:
  assumes "j < length files"
    and "open_err (io j) \<noteq> None \<or> create_err (io j) \<noteq> None \<or> copy_err (io j) \<noteq> None"
  shows "\<exists>e dir'. saveImages io dir files = (Inl e, dir')"
  using saveImages_loop_fails [of j files io 0 NilSlice dir] assms
  by (simp add: saveImages_def)

text \<open>
  The failures that the program checks do abort the request. If opening an uploaded
  file, creating its file in the upload directory or copying its content fails, the table
  of posts after the request is the table before it, the handler does not reach the
  insertion, and a request that passes the checks of the method, the form and the
  credentials is answered with the status 500 and the error of the failed image.
\<close>

lemma checked_failure_creates_no_post:
  assumes "j < length (Files r)"
    and "open_err (io j) \<noteq> None \<or> create_err (io j) \<noteq> None \<or> copy_err (io j) \<noteq> None"
  shows "db (snd (handleCreatePost io env s r)) = db s
         \<and> handleCreatePost io env' s r = handleCreatePost io env s r
         \<and> (Method r = ''POST'' \<and> ParseErr r = None \<and> FormValue r ''login'' = username
              \<and> FormValue r ''pass'' = password \<longrightarrow>
              (\<exists>e. fst (handleCreatePost io env s r)
                     = HttpError (''Error saving images: '' @ Error e) 500))"
proof -
  obtain e dir' where failed: "saveImages io (uploads s) (Files r) = (Inl e, dir')"
    using saveImages_fails [of j "Files r" io "uploads s"] assms by blast
  have unchanged: "db (snd (handleCreatePost io env s r)) = db s"
    by (auto simp: handleCreatePost_def failed split: option.splits)
  have same: "handleCreatePost io env' s r = handleCreatePost io env s r"
    by (auto simp: handleCreatePost_def failed split: option.splits)
  have reported: "\<exists>e. fst (handleCreatePost io env s r)
                     = HttpError (''Error saving images: '' @ Error e) 500"
    if "Method r = ''POST''" "ParseErr r = None" "FormValue r ''login'' = username"
      "FormValue r ''pass'' = password"
  proof -
    have "fst (handleCreatePost io env s r) = HttpError (''Error saving images: '' @ Error e) 500"
      using that by (simp add: handleCreatePost_def failed)
    then show ?thesis ..
  qed
  show ?thesis
    using unchanged same reported by blast
qed

text \<open>
  C2 at a failure that the program does not check. The write of an image can fail when
  its file is closed, and \<open>saveImages\<close> discards the error of \<open>dst.Close()\<close>. For the
  request of the owner with the one file \<open>a.png\<close> of content \<open>A\<close>, where the copy returns
  no error and closing the file fails with nothing written, \<open>saveImages\<close> returns the
  reference, and the handler inserts the post and redirects: the post exists and refers to
  \<open>/uploads/1.png\<close>, a file that is empty.
\<close>

theorem close_failure_still_creates_post:
  "copy_err (close_fails 0) = None
   \<and> close_err (close_fails 0) = Some (0, PathError ''disk quota exceeded'')
   \<and> saveImages close_fails Map.empty [\<lparr>Filename = ''a.png'', content = ''A''\<rparr>]
       = (Inr (Slice [''/uploads/1.png'']), [''1.png'' \<mapsto> []])
   \<and> handleCreatePost close_fails first_insert fresh_server one_file_request
       = (Redirect ''/'' 302,
          \<lparr>db = \<lparr>blog_posts = [\<lparr>ID = ''6f1c2a90-4b7d-4e35-a0c1-52d394b678ef'', Title = ''Hello'',
                     Text = ''Body'', Images = [''/uploads/1.png''], Date = 1000\<rparr>],
                  hello_letters = []\<rparr>,
           uploads = [''1.png'' \<mapsto> []]\<rparr>)"
proof -
  have env: "copy_err (close_fails 0) = None
      \<and> close_err (close_fails 0) = Some (0, PathError ''disk quota exceeded'')"
    by (simp add: close_fails_def)
  have saved: "saveImages close_fails Map.empty [\<lparr>Filename = ''a.png'', content = ''A''\<rparr>]
       = (Inr (Slice [''/uploads/1.png'']), [''1.png'' \<mapsto> []])"
    by (simp add: saveImages_def close_fails_def FormatInt_def Ext_def closed_file_def Let_def
          decimal.simps)
  have out: "uuid_out first_uuid = ''6f1c2a90-4b7d-4e35-a0c1-52d394b678ef''"
    by (simp add: first_uuid_def)
  have inserted: "insertPost first_insert empty_db ''Hello'' ''Body'' (Slice [''/uploads/1.png''])
       = Inr \<lparr>blog_posts = [\<lparr>ID = ''6f1c2a90-4b7d-4e35-a0c1-52d394b678ef'', Title = ''Hello'',
                 Text = ''Body'', Images = [''/uploads/1.png''], Date = 1000\<rparr>],
              hello_letters = []\<rparr>"
    using insertPost_stores [of first_insert empty_db "''Hello''" "''Body''" "[''/uploads/1.png'']"]
      characters_le_length [of "''Hello''"]
    by (simp add: valid_text_ascii first_insert_def empty_db_def out)
  have handled: "handleCreatePost close_fails first_insert fresh_server one_file_request
       = (Redirect ''/'' 302,
          \<lparr>db = \<lparr>blog_posts = [\<lparr>ID = ''6f1c2a90-4b7d-4e35-a0c1-52d394b678ef'', Title = ''Hello'',
                     Text = ''Body'', Images = [''/uploads/1.png''], Date = 1000\<rparr>],
                  hello_letters = []\<rparr>,
           uploads = [''1.png'' \<mapsto> []]\<rparr>)"
    by (simp add: handleCreatePost_def one_file_request_def fresh_server_def username_def
          password_def saved inserted)
  show ?thesis
    using env saved handled by simp
qed

theorem close_failure_still_creates_post_witness:
  "fst (handleCreatePost close_fails first_insert fresh_server one_file_request) = Redirect ''/'' 302
   \<and> map Images (blog_posts (db (snd (handleCreatePost close_fails first_insert fresh_server
         one_file_request)))) = [[''/uploads/1.png'']]
   \<and> uploads (snd (handleCreatePost close_fails first_insert fresh_server one_file_request))
        ''1.png'' = Some []"
  using close_failure_still_creates_post by simp

section \<open>The recent messages\<close>

lemma scan_rows_result:
  "scan_rows serr i rows acc = Inr xs \<Longrightarrow> xs = acc @ rows"
proof (induction rows arbitrary: i acc)
  case Nil
  then show ?case by simp
next
  case (Cons r rows)
  then have "scan_rows serr (Suc i) rows (acc @ [r]) = Inr xs"
    by (simp split: option.splits)
  then have "xs = (acc @ [r]) @ rows"
    by (rule Cons.IH)
  then show ?case by simp
qed

lemma scan_rows_no_error:
  "(\<And>k. serr k = None) \<Longrightarrow> scan_rows serr i rows acc = Inr (acc @ rows)"
  by (induction rows arbitrary: i acc) auto

lemma letters_newest_first:
  "sorted_wrt (\<lambda>a b. Letter.Date b \<le> Letter.Date a) (letters_by_date_desc rows)"
proof -
  have "sorted (map (\<lambda>m. - Letter.Date m) (letters_by_date_desc rows))"
    unfolding letters_by_date_desc_def by (rule sorted_sort_key)
  then show ?thesis
    by (simp add: sorted_map)
qed

lemma letters_same_rows: "mset (letters_by_date_desc rows) = mset rows"
  by (simp add: letters_by_date_desc_def)

lemma getMessages_result:
  assumes "getMessages env d = Inr ms"
  shows "ms = take 5 (letters_by_date_desc (hello_letters d))"
  using assms
  by (auto simp: getMessages_def select_recent_letters_def
           split: option.splits sum.splits dest: scan_rows_result)

text \<open>
  C7. The limit of \<open>getMessages\<close> is the constant 5 of its query. Whenever it returns
  messages, they are the first 5 of the stored messages in the order of decreasing date,
  which is an arrangement of the stored messages: at most 5 messages, newest first. It
  does return them when the query, the scans and the iteration succeed. When the query
  fails, \<open>getMessages\<close> returns the error, and for every error that \<open>getMessages\<close>
  returns \<open>handleMain\<close> renders the page with the empty sequence of messages.
\<close>

theorem recent_messages:
  "(getMessages env d = Inr ms \<longrightarrow>
      length ms \<le> 5
      \<and> sorted_wrt (\<lambda>a b. Letter.Date b \<le> Letter.Date a) ms
      \<and> ms = take 5 (letters_by_date_desc (hello_letters d)))
   \<and> mset (letters_by_date_desc (hello_letters d)) = mset (hello_letters d)
   \<and> sorted_wrt (\<lambda>a b. Letter.Date b \<le> Letter.Date a) (letters_by_date_desc (hello_letters d))
   \<and> (query_err env = None \<and> (\<forall>k. scan_err env k = None) \<and> rows_Err env = None \<longrightarrow>
        getMessages env d = Inr (take 5 (letters_by_date_desc (hello_letters d))))
   \<and> (query_err env = Some e \<longrightarrow> getMessages env d = Inl e)
   \<and> (getMessages env d = Inl e \<and> Path r = ''/'' \<longrightarrow> handleMain env d r = IndexPage [])"
proof -
  have returned: "length ms \<le> 5
      \<and> sorted_wrt (\<lambda>a b. Letter.Date b \<le> Letter.Date a) ms
      \<and> ms = take 5 (letters_by_date_desc (hello_letters d))"
    if "getMessages env d = Inr ms"
    using getMessages_result [OF that] letters_newest_first [of "hello_letters d"]
    by simp
  have healthy: "getMessages env d = Inr (take 5 (letters_by_date_desc (hello_letters d)))"
    if "query_err env = None" "\<forall>k. scan_err env k = None" "rows_Err env = None"
    using that by (simp add: getMessages_def select_recent_letters_def scan_rows_no_error)
  have broken: "getMessages env d = Inl e" if "query_err env = Some e"
    using that by (simp add: getMessages_def)
  have degraded: "handleMain env d r = IndexPage []"
    if "getMessages env d = Inl e" "Path r = ''/''"
    using that by (simp add: handleMain_def)
  show ?thesis
    using returned healthy broken degraded letters_same_rows letters_newest_first
    by blast
qed

theorem recent_messages_witness:
  "getMessages healthy_rows six_letters = Inr (map letter [6, 5, 4, 3, 2])
   \<and> length (map letter [6, 5, 4, 3, 2]) \<le> 5
   \<and> sorted_wrt (\<lambda>a b. Letter.Date b \<le> Letter.Date a) (map letter [6, 5, 4, 3, 2])
   \<and> (query_err healthy_rows = None \<and> (\<forall>k. scan_err healthy_rows k = None)
        \<and> rows_Err healthy_rows = None)
   \<and> query_err broken_rows = Some (DriverError ''connection refused'')
   \<and> getMessages broken_rows six_letters = Inl (DriverError ''connection refused'')
   \<and> Path main_request = ''/''
   \<and> handleMain broken_rows six_letters main_request = IndexPage []"
proof -
  have sorted_six: "letters_by_date_desc (hello_letters six_letters) = map letter [6, 5, 4, 3, 2, 1]"
    by (simp add: letters_by_date_desc_def six_letters_def letter_def)
  have healthy: "query_err healthy_rows = None \<and> (\<forall>k. scan_err healthy_rows k = None)
        \<and> rows_Err healthy_rows = None"
    by (simp add: healthy_rows_def)
  have broken: "query_err broken_rows = Some (DriverError ''connection refused'')"
    by (simp add: broken_rows_def)
  have path: "Path main_request = ''/''"
    by (simp add: main_request_def)
  show ?thesis
    using healthy broken path sorted_six
      recent_messages [of healthy_rows six_letters "map letter [6, 5, 4, 3, 2]"
        "DriverError ''connection refused''" main_request]
      recent_messages [of broken_rows six_letters "map letter [6, 5, 4, 3, 2]"
        "DriverError ''connection refused''" main_request]
    by simp
qed

section \<open>A page of posts\<close>

lemma posts_newest_first:
  "sorted_wrt (\<lambda>p q. Post.Date q \<le> Post.Date p) (posts_by_date_desc rows)"
proof -
  have "sorted (map (\<lambda>p. - Post.Date p) (posts_by_date_desc rows))"
    unfolding posts_by_date_desc_def by (rule sorted_sort_key)
  then show ?thesis
    by (simp add: sorted_map)
qed

lemma posts_same_rows: "mset (posts_by_date_desc rows) = mset rows"
  by (simp add: posts_by_date_desc_def)

lemma length_posts_by_date_desc: "length (posts_by_date_desc rows) = length rows"
  by (simp add: posts_by_date_desc_def)

lemma getPostsPage_healthy:
  assumes "query_err env = None" and "\<forall>k. scan_err env k = None" and "rows_Err env = None"
    and "0 \<le> perPage" and "0 \<le> offset page perPage"
  shows "getPostsPage env d page perPage =
           Inr (take (nat perPage) (drop (nat (offset page perPage))
                  (posts_by_date_desc (blog_posts d))),
                case count_err env of Some e \<Rightarrow> 0 | None \<Rightarrow> int (length (blog_posts d)))"
  using assms
  by (simp add: getPostsPage_def select_posts_page_def scan_rows_no_error Let_def)

text \<open>
  Within the range of the integers the page is the one that the page number names. For
  every \<open>page \<ge> 1\<close> and every page size \<open>perPage \<ge> 0\<close> such that
  \<open>(page - 1) * perPage\<close> is at most the largest 64-bit integer, when the count, the
  query, the scans and the iteration succeed, \<open>getPostsPage\<close> returns the number of
  posts in the store and a sequence of at most \<open>perPage\<close> posts, newest first: the posts
  at the positions \<open>(page - 1) * perPage\<close>, \<open>(page - 1) * perPage + 1\<close>, ... of the
  ordering of the store by decreasing date. That ordering is an arrangement of the posts
  of the store in which no post is older than a later one.
\<close>

lemma posts_page_in_range:
  assumes "1 \<le> page" and "0 \<le> perPage" and "(page - 1) * perPage \<le> maxInt"
    and "count_err env = None" and "query_err env = None"
    and "\<forall>k. scan_err env k = None" and "rows_Err env = None"
  shows "\<exists>posts. getPostsPage env d page perPage = Inr (posts, int (length (blog_posts d)))
           \<and> posts = take (nat perPage) (drop (nat ((page - 1) * perPage))
                        (posts_by_date_desc (blog_posts d)))
           \<and> length posts \<le> nat perPage
           \<and> sorted_wrt (\<lambda>p q. Post.Date q \<le> Post.Date p) posts
           \<and> (\<forall>i < length posts.
                 posts ! i = posts_by_date_desc (blog_posts d) ! (nat ((page - 1) * perPage) + i))
           \<and> mset (posts_by_date_desc (blog_posts d)) = mset (blog_posts d)
           \<and> sorted_wrt (\<lambda>p q. Post.Date q \<le> Post.Date p) (posts_by_date_desc (blog_posts d))"
proof -
  let ?ordered = "posts_by_date_desc (blog_posts d)"
  let ?posts = "take (nat perPage) (drop (nat ((page - 1) * perPage)) ?ordered)"
  have nonneg: "0 \<le> (page - 1) * perPage"
    using assms(1,2) by simp
  then have "minInt \<le> (page - 1) * perPage"
    by (simp add: minInt_def)
  then have off: "offset page perPage = (page - 1) * perPage"
    using assms(3) by (rule offset_exact)
  have result: "getPostsPage env d page perPage = Inr (?posts, int (length (blog_posts d)))"
    using getPostsPage_healthy [of env perPage page d] assms nonneg off by simp
  have bound: "length ?posts \<le> nat perPage"
    by simp
  have ordered: "sorted_wrt (\<lambda>p q. Post.Date q \<le> Post.Date p) ?ordered"
    by (rule posts_newest_first)
  then have sorted_page: "sorted_wrt (\<lambda>p q. Post.Date q \<le> Post.Date p) ?posts"
    by simp
  have positions: "\<forall>i < length ?posts. ?posts ! i = ?ordered ! (nat ((page - 1) * perPage) + i)"
  proof (intro allI impI)
    fix i
    assume "i < length ?posts"
    then have "i < nat perPage" and "nat ((page - 1) * perPage) \<le> length ?ordered"
      by auto
    then show "?posts ! i = ?ordered ! (nat ((page - 1) * perPage) + i)"
      by simp
  qed
  show ?thesis
    using result bound sorted_page positions posts_same_rows [of "blog_posts d"] ordered
    by blast
qed

lemma posts_page_scenario:
  "(1 :: int) \<le> 1 \<and> (0 :: int) \<le> 3 \<and> (1 - 1) * 3 \<le> maxInt
   \<and> count_err healthy_page = None \<and> query_err healthy_page = None
   \<and> (\<forall>k. scan_err healthy_page k = None) \<and> rows_Err healthy_page = None
   \<and> getPostsPage healthy_page seven_posts 1 3
       = Inr ([post ''7'' 70, post ''6'' 60, post ''5'' 50], 7)
   \<and> getPostsPage healthy_page seven_posts 3 3 = Inr ([post ''1'' 10], 7)
   \<and> getPostsPage healthy_page seven_posts 4 3 = Inr ([], 7)"
proof -
  have ordered: "posts_by_date_desc (blog_posts seven_posts) =
      [post ''7'' 70, post ''6'' 60, post ''5'' 50, post ''4'' 40, post ''3'' 30,
       post ''2'' 20, post ''1'' 10]"
    by (simp add: posts_by_date_desc_def seven_posts_def post_def)
  have env: "count_err healthy_page = None \<and> query_err healthy_page = None
      \<and> (\<forall>k. scan_err healthy_page k = None) \<and> rows_Err healthy_page = None"
    by (simp add: healthy_page_def)
  have len: "length (blog_posts seven_posts) = 7"
    by (simp add: seven_posts_def)
  show ?thesis
    using env ordered len
      posts_page_in_range [of 1 3 healthy_page seven_posts]
      posts_page_in_range [of 3 3 healthy_page seven_posts]
      posts_page_in_range [of 4 3 healthy_page seven_posts]
    by (simp add: maxInt_def)
qed

text \<open>
  C3 at a page whose offset overflows. With seven posts in the store and the page size 3,
  the page \<open>6148914691236517207\<close> starts at the offset \<open>(page - 1) * 3 = 2 ^ 64 + 2\<close>
  of the ordering, beyond its seven posts. The program computes the offset in 64-bit
  integers, where the product wraps around to 2: \<open>getPostsPage\<close> returns the posts at
  the positions 2, 3 and 4, and \<open>handleBlog\<close> renders them.
\<close>

theorem posts_page_offset_overflow:
  "(1 :: int) \<le> 6148914691236517207
   \<and> (6148914691236517207 - 1) * 3 = (18446744073709551618 :: int)
   \<and> posts_by_date_desc (blog_posts seven_posts) =
       [post ''7'' 70, post ''6'' 60, post ''5'' 50, post ''4'' 40, post ''3'' 30,
        post ''2'' 20, post ''1'' 10]
   \<and> take 3 (drop (nat ((6148914691236517207 - 1) * 3))
         (posts_by_date_desc (blog_posts seven_posts))) = []
   \<and> getPostsPage healthy_page seven_posts 6148914691236517207 3
       = Inr ([post ''5'' 50, post ''4'' 40, post ''3'' 30], 7)
   \<and> handleBlog healthy_page seven_posts far_page_request
       = BlogPage [post ''5'' 50, post ''4'' 40, post ''3'' 30] 6148914691236517207 3"
proof -
  have ordered: "posts_by_date_desc (blog_posts seven_posts) =
      [post ''7'' 70, post ''6'' 60, post ''5'' 50, post ''4'' 40, post ''3'' 30,
       post ''2'' 20, post ''1'' 10]"
    by (simp add: posts_by_date_desc_def seven_posts_def post_def)
  have off: "offset 6148914691236517207 3 = 2"
    by (simp add: offset_def go_mul_def go_sub_def wrap_def)
  have last: "lastPage 7 3 = Some 3"
    using lastPage_exact [of 7 3] by (simp add: maxInt_def)
  have page: "getPostsPage healthy_page seven_posts 6148914691236517207 3
       = Inr ([post ''5'' 50, post ''4'' 40, post ''3'' 30], 7)"
    using getPostsPage_healthy [of healthy_page 3 6148914691236517207 seven_posts]
    by (simp add: healthy_page_def off ordered) (simp add: seven_posts_def)
  have blog: "handleBlog healthy_page seven_posts far_page_request
       = BlogPage [post ''5'' 50, post ''4'' 40, post ''3'' 30] 6148914691236517207 3"
    by (simp add: handleBlog_def far_page_request_def page last)
  show ?thesis
    using ordered page blog by simp
qed

section \<open>The count of posts is read without its error\<close>

text \<open>
  C10. When the count query fails, \<open>getPostsPage\<close> behaves as with a working count,
  except that the total is 0: if the same call with a working count returns a page of
  posts and the number \<open>n\<close> of posts in the store, the call with the failing count
  returns the same page with the total 0 and no error.
\<close>

theorem count_failure_is_ignored:
  assumes "count_err env = Some e"
    and "getPostsPage (env\<lparr>count_err := None\<rparr>) d page perPage = Inr (posts, n)"
  shows "getPostsPage env d page perPage = Inr (posts, 0) \<and> n = int (length (blog_posts d))"
  using assms
  by (auto simp: getPostsPage_def Let_def split: option.splits sum.splits)

theorem count_failure_is_ignored_witness:
  "count_err count_fails = Some (DriverError ''connection reset'')
   \<and> getPostsPage (count_fails\<lparr>count_err := None\<rparr>) seven_posts 1 3
       = Inr ([post ''7'' 70, post ''6'' 60, post ''5'' 50], 7)
   \<and> getPostsPage count_fails seven_posts 1 3
       = Inr ([post ''7'' 70, post ''6'' 60, post ''5'' 50], 0)
   \<and> (7 :: int) = int (length (blog_posts seven_posts))"
proof -
  have fails: "count_err count_fails = Some (DriverError ''connection reset'')"
    by (simp add: count_fails_def)
  have ordered: "posts_by_date_desc (blog_posts seven_posts) =
      [post ''7'' 70, post ''6'' 60, post ''5'' 50, post ''4'' 40, post ''3'' 30,
       post ''2'' 20, post ''1'' 10]"
    by (simp add: posts_by_date_desc_def seven_posts_def post_def)
  have off: "offset 1 3 = 0"
    using offset_exact [of 1 3] by (simp add: minInt_def maxInt_def)
  have working: "getPostsPage (count_fails\<lparr>count_err := None\<rparr>) seven_posts 1 3
       = Inr ([post ''7'' 70, post ''6'' 60, post ''5'' 50], 7)"
    using getPostsPage_healthy [of "count_fails\<lparr>count_err := None\<rparr>" 3 1 seven_posts]
    by (simp add: count_fails_def off ordered) (simp add: seven_posts_def)
  show ?thesis
    using fails working count_failure_is_ignored [OF fails working]
    by simp
qed

section \<open>Pages far beyond the last page\<close>

text \<open>
  C4 at a page whose offset overflows. With three posts in the store the last page is 1.
  For the page \<open>6148914691236517207\<close> the product \<open>(page - 1) * 3\<close> is \<open>2 ^ 64 + 2\<close>,
  which wraps around to the offset 2: \<open>getPostsPage\<close> returns the oldest post instead of
  the empty sequence, and \<open>handleBlog\<close> renders it. For the page \<open>4611686018427387905\<close>
  the offset wraps around to a negative number, which the server rejects:
  \<open>getPostsPage\<close> returns an error and \<open>handleBlog\<close> answers with the status 500.
\<close>

theorem far_page_offset_overflow:
  "lastPage 3 3 = Some 1
   \<and> offset 6148914691236517207 3 = 2
   \<and> getPostsPage healthy_page three_posts 6148914691236517207 3 = Inr ([post ''1'' 10], 3)
   \<and> handleBlog healthy_page three_posts far_page_request
       = BlogPage [post ''1'' 10] 6148914691236517207 1
   \<and> offset 4611686018427387905 3 = - 4611686018427387904
   \<and> getPostsPage healthy_page three_posts 4611686018427387905 3
       = Inl (PqError ''OFFSET must not be negative'')
   \<and> handleBlog healthy_page three_posts (far_page_request\<lparr>PageParam := 4611686018427387905\<rparr>)
       = HttpError ''pq: OFFSET must not be negative'' 500"
proof -
  have last: "lastPage 3 3 = Some 1"
    using lastPage_exact [of 3 3] by (simp add: maxInt_def)
  have off: "offset 6148914691236517207 3 = 2"
    by (simp add: offset_def go_mul_def go_sub_def wrap_def)
  have off_neg: "offset 4611686018427387905 3 = - 4611686018427387904"
    by (simp add: offset_def go_mul_def go_sub_def wrap_def)
  have ordered: "posts_by_date_desc (blog_posts three_posts) =
      [post ''3'' 30, post ''2'' 20, post ''1'' 10]"
    by (simp add: posts_by_date_desc_def three_posts_def post_def)
  have page: "getPostsPage healthy_page three_posts 6148914691236517207 3
       = Inr ([post ''1'' 10], 3)"
    using getPostsPage_healthy [of healthy_page 3 6148914691236517207 three_posts]
    by (simp add: healthy_page_def off ordered) (simp add: three_posts_def)
  have page_neg: "getPostsPage healthy_page three_posts 4611686018427387905 3
       = Inl (PqError ''OFFSET must not be negative'')"
    by (simp add: getPostsPage_def select_posts_page_def healthy_page_def off_neg)
  have blog: "handleBlog healthy_page three_posts far_page_request
       = BlogPage [post ''1'' 10] 6148914691236517207 1"
    by (simp add: handleBlog_def far_page_request_def page last)
  have blog_neg: "handleBlog healthy_page three_posts
         (far_page_request\<lparr>PageParam := 4611686018427387905\<rparr>)
       = HttpError ''pq: OFFSET must not be negative'' 500"
    by (simp add: handleBlog_def far_page_request_def page_neg)
  show ?thesis
    using last off page blog off_neg page_neg blog_neg by simp
qed

text \<open>
  Within the range of the integers the pages beyond the last one are empty: when
  \<open>(page - 1) * perPage\<close> is at most the largest 64-bit integer and the store works, a
  page beyond the last page is the empty sequence with the number of posts in the store.
\<close>

lemma page_beyond_last_is_empty:
  assumes "1 \<le> perPage" and "lastPage (int (length (blog_posts d))) perPage = Some l"
    and "int (length (blog_posts d)) + perPage - 1 \<le> maxInt"
    and "l < page" and "(page - 1) * perPage \<le> maxInt"
    and "count_err env = None" and "query_err env = None"
    and "\<forall>k. scan_err env k = None" and "rows_Err env = None"
  shows "getPostsPage env d page perPage = Inr ([], int (length (blog_posts d)))"
proof -
  let ?n = "int (length (blog_posts d))"
  have l: "l = (?n + perPage - 1) div perPage"
    using lastPage_exact [of ?n perPage] assms(1,2,3) by simp
  have "?n \<le> ((?n + perPage - 1) div perPage) * perPage"
  proof -
    have "?n + perPage - 1 = ((?n + perPage - 1) div perPage) * perPage
            + (?n + perPage - 1) mod perPage"
      by simp
    moreover have "(?n + perPage - 1) mod perPage \<le> perPage - 1"
      using assms(1) by simp
    ultimately show ?thesis by linarith
  qed
  moreover have "l * perPage \<le> (page - 1) * perPage"
    using assms(1,4) by (simp add: mult_right_mono)
  ultimately have covered: "?n \<le> (page - 1) * perPage"
    using l by simp
  then have nonneg: "0 \<le> (page - 1) * perPage"
    by simp
  then have "minInt \<le> (page - 1) * perPage"
    by (simp add: minInt_def)
  then have off: "offset page perPage = (page - 1) * perPage"
    using assms(5) by (rule offset_exact)
  have "length (posts_by_date_desc (blog_posts d)) \<le> nat ((page - 1) * perPage)"
    using covered by (simp add: length_posts_by_date_desc)
  then have "drop (nat ((page - 1) * perPage)) (posts_by_date_desc (blog_posts d)) = []"
    by simp
  then show ?thesis
    using getPostsPage_healthy [of env perPage page d] assms nonneg off by simp
qed

end
